theory Spec2Isabelle
  imports Complex_Main "HOL-Library.Sublist" "HOL-Library.AList" "HOL-Library.Log_Nat"
begin

section \<open>Python values and primitives\<close>

text \<open>
  The engine of \<^verbatim>\<open>src/app/compliance_engine.py\<close> works on Python strings, on dictionaries
  read from JSON and on whatever an LLM backend answers. A string whose characters the engine
  looks at (a document, a trigger phrase, what is built from them) is the list of its code
  points, \<open>pystr\<close>; names, keys and file names are \<^typ>\<open>string\<close>. Python's unbounded
  integers are \<^typ>\<open>int\<close>, a float is the rational it stands for (with the three non-finite
  values JSON decoding can produce kept apart), and every \<^verbatim>\<open>raise\<close> is a value of
  \<open>py_error + 'a\<close>.
\<close>

type_synonym pystr = "nat list"

text \<open>A string literal of the source, as code points.\<close>

definition ustr :: "string \<Rightarrow> pystr" where
  "ustr s = map of_char s"

text \<open>
  \<open>BaseException\<close> stands for an exception that is not derived from \<^verbatim>\<open>Exception\<close>, such as
  \<^verbatim>\<open>KeyboardInterrupt\<close> or \<^verbatim>\<open>SystemExit\<close>; the string is its name.
\<close>

datatype py_error =
    KeyError string
  | AttributeError
  | TypeError
  | JSONDecodeError
  | BaseException string

text \<open>A value decoded by \<^verbatim>\<open>json.loads\<close>, or built by the engine as a dictionary literal.\<close>

datatype pyval =
    PNone
  | PBool bool
  | PNum rat
  | PNaN
  | PInf
  | PNegInf
  | PStr string
  | PList "pyval list"
  | PDict "(string \<times> pyval) list"

text \<open>Sequencing of calls that may raise: the first exception wins.\<close>

definition bind_err :: "'e + 'a \<Rightarrow> ('a \<Rightarrow> 'e + 'b) \<Rightarrow> 'e + 'b" where
  "bind_err m f = (case m of Inl e \<Rightarrow> Inl e | Inr x \<Rightarrow> f x)"

text \<open>
  \<^verbatim>\<open>xs[i:j]\<close>: a negative index counts from the end, and both indices are clamped to the
  bounds of the sequence.
\<close>

definition py_slice :: "'a list \<Rightarrow> int \<Rightarrow> int \<Rightarrow> 'a list" where
  "py_slice xs i j =
     (let n = int (length xs);
          lo = (if i < 0 then max 0 (i + n) else min i n);
          hi = (if j < 0 then max 0 (j + n) else min j n)
      in take (nat (hi - lo)) (drop (nat lo) xs))"

text \<open>
  \<^verbatim>\<open>str.upper()\<close> on ASCII letters, for file names; every other character is left as it
  is. \<^verbatim>\<open>str.lower()\<close>, which the pattern matcher applies to documents, is not modelled: it
  is a parameter \<open>lower\<close> of the matcher and of what calls it, since Python lowercases by
  the Unicode tables, depending on context and not always one character to one.
\<close>

definition upper_char :: "char \<Rightarrow> char" where
  "upper_char c =
     (let n = (of_char c :: nat) in if 97 \<le> n \<and> n \<le> 122 then char_of (n - 32) else c)"

definition upper :: "string \<Rightarrow> string" where
  "upper s = map upper_char s"

text \<open>\<^verbatim>\<open>sub in s\<close> on strings: \<open>sub\<close> is a contiguous part of \<open>s\<close>.\<close>

definition py_in :: "'a list \<Rightarrow> 'a list \<Rightarrow> bool" where
  "py_in sub s = sublist sub s"

text \<open>\<^verbatim>\<open>s.find(sub)\<close>: the lowest index at which \<open>sub\<close> starts in \<open>s\<close>, or \<open>-1\<close>.\<close>

primrec find_from :: "'a list \<Rightarrow> 'a list \<Rightarrow> nat \<Rightarrow> int" where
  "find_from sub [] i = (if sub = [] then int i else - 1)"
| "find_from sub (c # cs) i =
     (if prefix sub (c # cs) then int i else find_from sub cs (Suc i))"

definition py_find :: "'a list \<Rightarrow> 'a list \<Rightarrow> int" where
  "py_find s sub = find_from sub s 0"

text \<open>\<^verbatim>\<open>s.endswith(suf)\<close>.\<close>

definition endswith :: "string \<Rightarrow> string \<Rightarrow> bool" where
  "endswith s suf = suffix suf s"

text \<open>
  \<^verbatim>\<open>s.replace(old, new)\<close>: every occurrence of \<open>old\<close>, found from the left and not
  overlapping an earlier one, is replaced. \<open>skip\<close> counts the characters of a replaced
  occurrence that are still to be passed over.
\<close>

primrec replace_from :: "string \<Rightarrow> string \<Rightarrow> nat \<Rightarrow> string \<Rightarrow> string" where
  "replace_from old new skip [] = []"
| "replace_from old new skip (c # cs) =
     (if 0 < skip then replace_from old new (skip - 1) cs
      else if prefix old (c # cs) then new @ replace_from old new (length old - 1) cs
      else c # replace_from old new 0 cs)"

definition replace :: "string \<Rightarrow> string \<Rightarrow> string \<Rightarrow> string" where
  "replace s old new =
     (if old = [] then new @ concat (map (\<lambda>c. c # new) s) else replace_from old new 0 s)"

text \<open>\<^verbatim>\<open>d.get(key, default)\<close>; only a dictionary has the method.\<close>

fun py_get :: "pyval \<Rightarrow> string \<Rightarrow> pyval \<Rightarrow> py_error + pyval" where
  "py_get (PDict kvs) k d = Inr (case map_of kvs k of Some v \<Rightarrow> v | None \<Rightarrow> d)"
| "py_get _ k d = Inl AttributeError"

text \<open>
  \<^verbatim>\<open>v > a\<close> and \<^verbatim>\<open>v >= a\<close> for a float \<open>a\<close>: a number or a boolean is compared by value, a
  comparison with NaN is false, and any other operand raises \<^verbatim>\<open>TypeError\<close>.
\<close>

fun py_gt :: "pyval \<Rightarrow> rat \<Rightarrow> py_error + bool" where
  "py_gt (PNum x) a = Inr (a < x)"
| "py_gt (PBool b) a = Inr (a < of_bool b)"
| "py_gt PInf a = Inr True"
| "py_gt PNegInf a = Inr False"
| "py_gt PNaN a = Inr False"
| "py_gt _ a = Inl TypeError"

fun py_ge :: "pyval \<Rightarrow> rat \<Rightarrow> py_error + bool" where
  "py_ge (PNum x) a = Inr (a \<le> x)"
| "py_ge (PBool b) a = Inr (a \<le> of_bool b)"
| "py_ge PInf a = Inr True"
| "py_ge PNegInf a = Inr False"
| "py_ge PNaN a = Inr False"
| "py_ge _ a = Inl TypeError"

text \<open>
  \<^verbatim>\<open>max(a, v)\<close> for a float \<open>a\<close>: the first argument is kept unless the second is greater.
\<close>

definition py_max :: "rat \<Rightarrow> pyval \<Rightarrow> py_error + pyval" where
  "py_max a v = bind_err (py_gt v a) (\<lambda>greater. Inr (if greater then v else PNum a))"

text \<open>\<^verbatim>\<open>a or v\<close> for a boolean \<open>a\<close>: \<^verbatim>\<open>True\<close> if \<open>a\<close> holds, the second operand otherwise.\<close>

definition py_or :: "bool \<Rightarrow> pyval \<Rightarrow> pyval" where
  "py_or a v = (if a then PBool True else v)"

text \<open>The truth value of a Python value, as \<^verbatim>\<open>bool(v)\<close> gives it.\<close>

fun truthy :: "pyval \<Rightarrow> bool" where
  "truthy PNone = False"
| "truthy (PBool b) = b"
| "truthy (PNum x) = (x \<noteq> 0)"
| "truthy PNaN = True"
| "truthy PInf = True"
| "truthy PNegInf = True"
| "truthy (PStr s) = (s \<noteq> [])"
| "truthy (PList vs) = (vs \<noteq> [])"
| "truthy (PDict kvs) = (kvs \<noteq> [])"

text \<open>\<^verbatim>\<open>v == True\<close>: only \<^verbatim>\<open>True\<close> itself and the number one are equal to \<^verbatim>\<open>True\<close>.\<close>

definition py_eq_True :: "pyval \<Rightarrow> bool" where
  "py_eq_True v = (v = PBool True \<or> v = PNum 1)"

text \<open>
  \<^verbatim>\<open>column > a\<close> on one cell of a data frame column: a missing value (\<^verbatim>\<open>None\<close>, NaN) compares
  false without an error, any other cell is compared as Python compares it.
\<close>

fun column_gt :: "pyval \<Rightarrow> rat \<Rightarrow> py_error + bool" where
  "column_gt PNone a = Inr False"
| "column_gt v a = py_gt v a"

subsection \<open>Double precision arithmetic\<close>

text \<open>
  A result of float arithmetic is the exact result rounded to the nearest double, ties to
  the even significand: 53 bits of significand, and a fixed spacing below the smallest
  normal number \<open>2 powi (- 1022)\<close>. Overflow does not occur on the values rounded here.
  \<open>exponent x\<close> is the \<open>e\<close> with \<open>2 powi e \<le> x < 2 powi (e + 1)\<close>, for a positive \<open>x\<close>.
\<close>

definition round_half_even :: "rat \<Rightarrow> int" where
  "round_half_even m =
     (let n = \<lfloor>m\<rfloor>; r = m - of_int n
      in if r < 1 / 2 then n else if 1 / 2 < r then n + 1 else if even n then n else n + 1)"

definition exponent :: "rat \<Rightarrow> int" where
  "exponent x =
     (let (a, b) = quotient_of x; k = bitlen a - bitlen b
      in if 2 powi k \<le> x then k else k - 1)"

definition round_double :: "rat \<Rightarrow> rat" where
  "round_double x =
     (if x = 0 then 0
      else (let e = max (exponent \<bar>x\<bar>) (- 1022); ulp = 2 powi (e - 52)
            in sgn x * of_int (round_half_even (\<bar>x\<bar> / ulp)) * ulp))"

text \<open>
  \<^verbatim>\<open>a / b\<close> on two integers (the quotient, correctly rounded) and \<^verbatim>\<open>x * y\<close> on two floats.
\<close>

definition int_truediv :: "int \<Rightarrow> int \<Rightarrow> rat" where
  "int_truediv a b = round_double (of_int a / of_int b)"

definition float_mul :: "rat \<Rightarrow> rat \<Rightarrow> rat" where
  "float_mul x y = round_double (x * y)"

section \<open>The text segmenter\<close>

text \<open>
  \<^verbatim>\<open>chunk_text\<close> is a \<^verbatim>\<open>while\<close> loop that nothing forces to end, so the loop is a partial
  function: \<open>None\<close> is a run that never returns. The source has no \<^verbatim>\<open>raise\<close> and slicing
  never fails, so there is no error branch.
\<close>

partial_function (option) chunk_loop ::
  "'a list \<Rightarrow> int \<Rightarrow> int \<Rightarrow> int \<Rightarrow> 'a list list \<Rightarrow> 'a list list option" where
  "chunk_loop text chunk_size overlap start chunks =
     (if start < int (length text) then
        (let stop = start + chunk_size;
             chunk = py_slice text start stop;
             chunks' = chunks @ [chunk];
             start' = stop - overlap
         in if int (length text) \<le> stop then Some chunks'
            else chunk_loop text chunk_size overlap start' chunks')
      else Some chunks)"

declare chunk_loop.simps [code]

definition chunk_text :: "'a list \<Rightarrow> int \<Rightarrow> int \<Rightarrow> 'a list list option" where
  "chunk_text text chunk_size overlap = chunk_loop text chunk_size overlap 0 []"

section \<open>The data model\<close>

text \<open>
  A rule and a rule set are dictionaries read from a JSON rule file. A key that may be
  missing is an \<open>option\<close> field: \<^verbatim>\<open>rule['name']\<close> raises \<^verbatim>\<open>KeyError\<close> on \<open>None\<close>, and
  \<^verbatim>\<open>rule.get('patterns', [])\<close> takes its default there. The values that are present have
  the types of the rule file format.
\<close>

record rule =
  r_id :: "string option"
  r_name :: "string option"
  r_description :: "string option"
  r_severity :: "string option"
  r_patterns :: "pystr list option"
  r_llm_prompt :: "string option"

record rule_set =
  rs_description :: "string option"
  rs_rules :: "rule list option"

text \<open>
  What one call of a backend does inside the \<^verbatim>\<open>try\<close> block. \<open>Raises\<close>: the call, reading the
  text out of its response, or decoding it raises an exception derived from \<^verbatim>\<open>Exception\<close>
  other than \<^verbatim>\<open>JSONDecodeError\<close>; the string is \<^verbatim>\<open>str(e)\<close>. \<open>RaisesBase\<close>: the call raises an
  exception that is not derived from \<^verbatim>\<open>Exception\<close>; the string is its name. \<open>Text\<close>: a text
  is returned, and it comes with what \<^verbatim>\<open>json.loads\<close> makes of it: the decoded value, or
  \<open>None\<close> when \<^verbatim>\<open>json.loads\<close> raises \<^verbatim>\<open>JSONDecodeError\<close>.
\<close>

datatype completion =
    Raises string
  | RaisesBase string
  | Text string "pyval option"

text \<open>
  One entry of the vector store's collection: the chunk, the metadata given by the caller,
  the chunk's index, and the entry's id \<^verbatim>\<open>f"{doc_id}_chunk_{i}"\<close> kept as the pair it is
  made from.
\<close>

record chunk_entry =
  entry_document :: pystr
  entry_metadata :: "(string \<times> string) list"
  entry_chunk_id :: nat
  entry_id :: "string \<times> nat"

text \<open>
  The engine: the two optional LLM clients, the collection of the vector store, and the
  loaded rule sets (a dictionary in insertion order).
\<close>

record engine =
  openai_client :: "(pystr \<Rightarrow> completion) option"
  anthropic_client :: "(pystr \<Rightarrow> completion) option"
  collection :: "chunk_entry list"
  rules :: "(string \<times> rule_set) list"

text \<open>
  The record \<^verbatim>\<open>analyze_document\<close> builds for one rule. The four fields read from the LLM
  result, and the two computed from them, hold whatever Python value the result carries.
  The time stamp \<^verbatim>\<open>created_at\<close> is left out.
\<close>

record verdict =
  document_id :: string
  rule_type :: string
  rule_id :: string
  rule_name :: string
  violation_type :: string
  severity :: string
  pattern_violation :: bool
  pattern_evidence :: "pystr list"
  llm_violation :: pyval
  llm_confidence :: pyval
  llm_evidence :: pyval
  llm_explanation :: pyval
  overall_violation :: pyval
  confidence_score :: pyval

text \<open>
  The report. The empty dictionary \<^verbatim>\<open>{}\<close> under \<^verbatim>\<open>"summary"\<close> is \<open>None\<close>, and so is a
  missing key \<^verbatim>\<open>"detailed_results"\<close>.
\<close>

record summary =
  total_violations :: nat
  total_checks :: nat
  violations_by_type :: "string \<rightharpoonup> nat"
  violations_by_severity :: "string \<rightharpoonup> nat"
  high_confidence_violations :: nat
  compliance_score :: rat

record report =
  status :: string
  report_summary :: "summary option"
  detailed_results :: "verdict list option"

text \<open>A rule file of the rules directory: its content is not JSON, or it is this document.\<close>

datatype rule_file =
    NotJson
  | Json rule_set

section \<open>Rule loading\<close>

text \<open>
  \<^verbatim>\<open>load_all_rules\<close> walks the directory listing; a later file with the same rule type
  replaces the value of an earlier one, as a dictionary assignment does.
\<close>

fun load_rules_loop ::
  "(string \<times> rule_file) list \<Rightarrow> (string \<times> rule_set) list \<Rightarrow>
   py_error + (string \<times> rule_set) list" where
  "load_rules_loop [] loaded = Inr loaded"
| "load_rules_loop ((filename, file) # rest) loaded =
     (if endswith filename ''_rules.json'' then
        (let rule_type = upper (replace filename ''_rules.json'' [])
         in case file of
              NotJson \<Rightarrow> Inl JSONDecodeError
            | Json content \<Rightarrow> load_rules_loop rest (AList.update rule_type content loaded))
      else load_rules_loop rest loaded)"

definition load_all_rules ::
  "(string \<times> rule_file) list \<Rightarrow> py_error + (string \<times> rule_set) list" where
  "load_all_rules listing = load_rules_loop listing []"

section \<open>The vector store\<close>

primrec add_chunks ::
  "string \<Rightarrow> (string \<times> string) list \<Rightarrow> nat \<Rightarrow> pystr list \<Rightarrow> chunk_entry list \<Rightarrow>
   chunk_entry list" where
  "add_chunks doc_id metadata i [] coll = coll"
| "add_chunks doc_id metadata i (chunk # chunks) coll =
     add_chunks doc_id metadata (Suc i) chunks
       (coll @ [\<lparr>entry_document = chunk, entry_metadata = metadata,
                 entry_chunk_id = i, entry_id = (doc_id, i)\<rparr>])"

definition add_document_to_vector_db ::
  "engine \<Rightarrow> string \<Rightarrow> pystr \<Rightarrow> (string \<times> string) list \<Rightarrow> engine option" where
  "add_document_to_vector_db eng doc_id content metadata =
     (case chunk_text content 1000 200 of
        None \<Rightarrow> None
      | Some chunks \<Rightarrow>
          Some (eng\<lparr>collection := add_chunks doc_id metadata 0 chunks (collection eng)\<rparr>))"

section \<open>The pattern matcher\<close>

definition found_message :: "pystr \<Rightarrow> pystr \<Rightarrow> pystr" where
  "found_message pattern context =
     ustr ''Found '' @ [39] @ pattern @ [39] @ ustr '' in context: ...'' @ context
       @ ustr ''...''"

text \<open>
  The offset \<open>start\<close> is found in the lowercased content and then used in the content
  itself, as the source does.
\<close>

primrec pattern_loop ::
  "(pystr \<Rightarrow> pystr) \<Rightarrow> pystr \<Rightarrow> pystr list \<Rightarrow> pystr list \<Rightarrow> pystr list" where
  "pattern_loop lower content [] violations = violations"
| "pattern_loop lower content (pattern # patterns) violations =
     (if py_in (lower pattern) (lower content) then
        (let content_lower = lower content;
             start = py_find content_lower (lower pattern);
             context_start = max 0 (start - 100);
             context_end = min (int (length content)) (start + int (length pattern) + 100);
             context = py_slice content context_start context_end
         in pattern_loop lower content patterns (violations @ [found_message pattern context]))
      else pattern_loop lower content patterns violations)"

definition check_pattern_compliance ::
  "(pystr \<Rightarrow> pystr) \<Rightarrow> pystr \<Rightarrow> rule \<Rightarrow> bool \<times> pystr list" where
  "check_pattern_compliance lower content rule =
     (let patterns = (case r_patterns rule of None \<Rightarrow> [] | Some ps \<Rightarrow> ps);
          violations = pattern_loop lower content patterns []
      in (0 < length violations, violations))"

section \<open>The LLM adjudicator\<close>

text \<open>The prompt: the f-string of the source, line by line.\<close>

definition build_prompt :: "string \<Rightarrow> string \<Rightarrow> string \<Rightarrow> pystr \<Rightarrow> pystr" where
  \<open>build_prompt name description analysis_prompt document =
     concat (map (\<lambda>line. line @ [10])
       [[],
        ustr ''        Compliance Analysis Request:'',
        ustr ''        '',
        ustr (''        Rule: '' @ name),
        ustr (''        Description: '' @ description),
        ustr (''        Analysis Prompt: '' @ analysis_prompt),
        ustr ''        '',
        ustr ''        Document Content:'',
        ustr ''        '' @ document @ ustr ''  # Limit content to avoid token limits'',
        ustr ''        '',
        ustr ''        Please analyze the document and respond with:'',
        ustr ''        1. Is there a compliance violation? (Yes/No)'',
        ustr ''        2. Confidence score (0.0 to 1.0)'',
        ustr ''        3. Evidence from the document (specific quotes)'',
        ustr ''        4. Explanation of the violation or compliance'',
        ustr ''        '',
        ustr ''        Format your response as JSON:'',
        ustr ''        {'',
        ustr ''            "violation": true/false,'',
        ustr ''            "confidence": 0.0-1.0,'',
        ustr ''            "evidence": ["quote1", "quote2"],'',
        ustr ''            "explanation": "detailed explanation"'',
        ustr ''        }'']) @ ustr ''        ''\<close>

text \<open>The three dictionaries the source returns when it has no parsed answer to return.\<close>

definition no_llm_verdict :: pyval where
  "no_llm_verdict =
     PDict [(''violation'', PBool False), (''confidence'', PNum 0), (''evidence'', PList []),
            (''explanation'', PStr ''No LLM API configured'')]"

definition fail_open_verdict :: "string \<Rightarrow> pyval" where
  "fail_open_verdict result =
     PDict [(''violation'', PBool True), (''confidence'', PNum (1 / 2)), (''evidence'', PList []),
            (''explanation'', PStr result)]"

definition failed_verdict :: "string \<Rightarrow> pyval" where
  "failed_verdict cause =
     PDict [(''violation'', PBool False), (''confidence'', PNum 0), (''evidence'', PList []),
            (''explanation'', PStr (''LLM analysis failed: '' @ cause))]"

text \<open>
  The \<^verbatim>\<open>try\<close> block once a client has been called. \<^verbatim>\<open>except Exception\<close> catches an
  exception derived from \<^verbatim>\<open>Exception\<close> and no other; a text that is not JSON is caught by
  the inner handler; a decoded value is returned as it is.
\<close>

fun handle_completion :: "completion \<Rightarrow> py_error + pyval" where
  "handle_completion (Raises cause) = Inr (failed_verdict cause)"
| "handle_completion (RaisesBase name) = Inl (BaseException name)"
| "handle_completion (Text result None) = Inr (fail_open_verdict result)"
| "handle_completion (Text result (Some parsed)) = Inr parsed"

text \<open>
  The first statement of \<^verbatim>\<open>llm_compliance_check\<close> evaluates the f-string. It stands
  before the \<^verbatim>\<open>try\<close> block, so a rule without \<^verbatim>\<open>name\<close> or \<^verbatim>\<open>description\<close> raises
  \<^verbatim>\<open>KeyError\<close> to the caller.
\<close>

definition rule_prompt :: "rule \<Rightarrow> pystr \<Rightarrow> py_error + pystr" where
  "rule_prompt rule content =
     (case r_name rule of
        None \<Rightarrow> Inl (KeyError ''name'')
      | Some name \<Rightarrow>
     (case r_description rule of
        None \<Rightarrow> Inl (KeyError ''description'')
      | Some description \<Rightarrow>
          Inr (build_prompt name description
                 (case r_llm_prompt rule of
                    None \<Rightarrow> ''Analyze this document for compliance violations.''
                  | Some p \<Rightarrow> p)
                 (take 3000 content))))"

definition llm_compliance_check :: "engine \<Rightarrow> pystr \<Rightarrow> rule \<Rightarrow> py_error + pyval" where
  "llm_compliance_check eng content rule =
     bind_err (rule_prompt rule content) (\<lambda>prompt.
       case openai_client eng of
         Some create \<Rightarrow> handle_completion (create prompt)
       | None \<Rightarrow>
      (case anthropic_client eng of
         Some create \<Rightarrow> handle_completion (create prompt)
       | None \<Rightarrow> Inr no_llm_verdict))"

section \<open>The analysis orchestrator\<close>

text \<open>The body of the inner loop: one rule, one record appended to the results.\<close>

definition analyze_rule ::
  "(pystr \<Rightarrow> pystr) \<Rightarrow> engine \<Rightarrow> string \<Rightarrow> pystr \<Rightarrow> string \<Rightarrow> rule \<Rightarrow>
   py_error + verdict" where
  "analyze_rule lower eng doc_id content rtype rule =
     (let (has_pattern_violation, evidence) = check_pattern_compliance lower content rule
      in bind_err (llm_compliance_check eng content rule) (\<lambda>llm_result.
         bind_err (case r_id rule of None \<Rightarrow> Inl (KeyError ''id'') | Some v \<Rightarrow> Inr v) (\<lambda>rid.
         bind_err (case r_name rule of None \<Rightarrow> Inl (KeyError ''name'') | Some v \<Rightarrow> Inr v) (\<lambda>rname.
         bind_err (case r_description rule of
                     None \<Rightarrow> Inl (KeyError ''description'') | Some v \<Rightarrow> Inr v) (\<lambda>rdescription.
         bind_err (py_get llm_result ''violation'' (PBool False)) (\<lambda>violation.
         bind_err (py_get llm_result ''confidence'' (PNum 0)) (\<lambda>confidence.
         bind_err (py_get llm_result ''evidence'' (PList [])) (\<lambda>llm_ev.
         bind_err (py_get llm_result ''explanation'' (PStr [])) (\<lambda>explanation.
         bind_err (py_max (if has_pattern_violation then 4 / 5 else 0) confidence) (\<lambda>score.
           Inr \<lparr>document_id = doc_id,
                rule_type = rtype,
                rule_id = rid,
                rule_name = rname,
                violation_type = rdescription,
                severity = (case r_severity rule of None \<Rightarrow> ''MEDIUM'' | Some v \<Rightarrow> v),
                pattern_violation = has_pattern_violation,
                pattern_evidence = evidence,
                llm_violation = violation,
                llm_confidence = confidence,
                llm_evidence = llm_ev,
                llm_explanation = explanation,
                overall_violation = py_or has_pattern_violation violation,
                confidence_score = score\<rparr>))))))))))"

primrec analyze_rules ::
  "(pystr \<Rightarrow> pystr) \<Rightarrow> engine \<Rightarrow> string \<Rightarrow> pystr \<Rightarrow> string \<Rightarrow> rule list \<Rightarrow>
   verdict list \<Rightarrow> py_error + verdict list" where
  "analyze_rules lower eng doc_id content rtype [] results = Inr results"
| "analyze_rules lower eng doc_id content rtype (rule # rest) results =
     bind_err (analyze_rule lower eng doc_id content rtype rule) (\<lambda>result.
       analyze_rules lower eng doc_id content rtype rest (results @ [result]))"

primrec analyze_types ::
  "(pystr \<Rightarrow> pystr) \<Rightarrow> engine \<Rightarrow> string \<Rightarrow> pystr \<Rightarrow> string list \<Rightarrow> verdict list \<Rightarrow>
   py_error + verdict list" where
  "analyze_types lower eng doc_id content [] results = Inr results"
| "analyze_types lower eng doc_id content (rtype # rest) results =
     (case map_of (rules eng) rtype of
        None \<Rightarrow> analyze_types lower eng doc_id content rest results
      | Some rset \<Rightarrow>
          bind_err (analyze_rules lower eng doc_id content rtype
                      (case rs_rules rset of None \<Rightarrow> [] | Some rs \<Rightarrow> rs) results)
            (\<lambda>results'. analyze_types lower eng doc_id content rest results'))"

text \<open>
  \<^verbatim>\<open>analyze_document\<close> indexes the document first and then runs the rules. The result is
  \<open>None\<close> if the call never returns; otherwise it is the engine after the call and either
  the list of records or the exception raised.
\<close>

definition analyze_document ::
  "(pystr \<Rightarrow> pystr) \<Rightarrow> engine \<Rightarrow> string \<Rightarrow> pystr \<Rightarrow> string list option \<Rightarrow>
   ((py_error + verdict list) \<times> engine) option" where
  "analyze_document lower eng doc_id content rule_types =
     (case add_document_to_vector_db eng doc_id content [(''doc_id'', doc_id)] of
        None \<Rightarrow> None
      | Some eng' \<Rightarrow>
          (let rtypes = (case rule_types of None \<Rightarrow> map fst (rules eng') | Some ts \<Rightarrow> ts)
           in Some (analyze_types lower eng' doc_id content rtypes [], eng')))"

section \<open>The report aggregator\<close>

text \<open>
  The data frame operations, row by row, each cell compared as the Python object it holds.
  \<^verbatim>\<open>df["confidence_score"] > 0.7\<close> compares every row, so one value that cannot be compared
  with a float raises. The two \<^verbatim>\<open>groupby\<close> tables are dictionaries from a key to the number
  of its rows. The score \<^verbatim>\<open>(len(df) - len(...)) / len(df) * 100\<close> is an integer difference, a
  division of integers and a product of floats.
\<close>

definition violation_rows :: "verdict list \<Rightarrow> verdict list" where
  "violation_rows df = filter (\<lambda>row. py_eq_True (overall_violation row)) df"

definition group_sizes :: "(verdict \<Rightarrow> string) \<Rightarrow> verdict list \<Rightarrow> (string \<rightharpoonup> nat)" where
  "group_sizes key df =
     (\<lambda>k. if k \<in> key ` set df then Some (length (filter (\<lambda>row. key row = k) df)) else None)"

primrec high_confidence_mask :: "verdict list \<Rightarrow> py_error + bool list" where
  "high_confidence_mask [] = Inr []"
| "high_confidence_mask (row # df) =
     bind_err (column_gt (confidence_score row) (7 / 10)) (\<lambda>b.
     bind_err (high_confidence_mask df) (\<lambda>bs. Inr (b # bs)))"

definition generate_compliance_report :: "verdict list \<Rightarrow> py_error + report" where
  "generate_compliance_report results =
     (if results = [] then
        Inr \<lparr>status = ''No violations found'', report_summary = None, detailed_results = None\<rparr>
      else
        (let df = results
         in bind_err (high_confidence_mask df) (\<lambda>mask.
            Inr \<lparr>status = ''Analysis Complete'',
                 report_summary = Some
                   \<lparr>total_violations = length (violation_rows df),
                    total_checks = length df,
                    violations_by_type = group_sizes rule_type (violation_rows df),
                    violations_by_severity = group_sizes severity (violation_rows df),
                    high_confidence_violations =
                      length (filter (\<lambda>(row, b). py_eq_True (overall_violation row) \<and> b)
                                (zip df mask)),
                    compliance_score =
                      float_mul
                        (int_truediv (int (length df) - int (length (violation_rows df)))
                           (int (length df)))
                        100\<rparr>,
                 detailed_results = Some results\<rparr>)))"

section \<open>Notions used to state the properties\<close>

text \<open>
  The test the matcher makes: the lowercased pattern is a substring of the lowercased
  content.
\<close>

definition lowered_substring :: "(pystr \<Rightarrow> pystr) \<Rightarrow> pystr \<Rightarrow> pystr \<Rightarrow> bool" where
  "lowered_substring lower pattern content = sublist (lower pattern) (lower content)"

text \<open>
  Case-insensitive occurrence, for a lowercasing \<open>lc\<close> of single characters: the pattern
  occurs in \<open>content\<close> at offset \<open>i\<close> if the part of \<open>content\<close> that starts at \<open>i\<close> and is
  as long as the pattern equals the pattern once both are lowercased. A case-insensitive
  substring is a pattern that occurs somewhere.
\<close>

definition occurs_at :: "(nat \<Rightarrow> nat) \<Rightarrow> pystr \<Rightarrow> pystr \<Rightarrow> nat \<Rightarrow> bool" where
  "occurs_at lc pattern content i =
     (i + length pattern \<le> length content \<and>
      map lc (take (length pattern) (drop i content)) = map lc pattern)"

definition ci_substring :: "(nat \<Rightarrow> nat) \<Rightarrow> pystr \<Rightarrow> pystr \<Rightarrow> bool" where
  "ci_substring lc pattern content = (\<exists>i. occurs_at lc pattern content i)"

definition first_occurrence :: "(nat \<Rightarrow> nat) \<Rightarrow> pystr \<Rightarrow> pystr \<Rightarrow> nat" where
  "first_occurrence lc pattern content = (LEAST i. occurs_at lc pattern content i)"

text \<open>
  The context of the first occurrence: from 100 characters before it (or from the start of
  the text) to 100 characters after its end (or to the end of the text).
\<close>

definition context_of :: "(nat \<Rightarrow> nat) \<Rightarrow> pystr \<Rightarrow> pystr \<Rightarrow> pystr" where
  "context_of lc content pattern =
     (let i = first_occurrence lc pattern content;
          a = i - 100;
          b = min (length content) (i + length pattern + 100)
      in take (b - a) (drop a content))"

text \<open>A rule's trigger phrases and a rule set's rules, with the defaults of \<^verbatim>\<open>get\<close>.\<close>

definition rule_patterns :: "rule \<Rightarrow> pystr list" where
  "rule_patterns rule = (case r_patterns rule of None \<Rightarrow> [] | Some ps \<Rightarrow> ps)"


text \<open>The one backend a call is dispatched to: the first client that is set.\<close>

definition the_backend :: "engine \<Rightarrow> (pystr \<Rightarrow> completion) option" where
  "the_backend eng =
     (case openai_client eng of Some create \<Rightarrow> Some create | None \<Rightarrow> anthropic_client eng)"

text \<open>
  A well-formed LLM verdict, as the data model describes it: a dictionary with a boolean
  \<^verbatim>\<open>violation\<close>, a \<^verbatim>\<open>confidence\<close> between 0 and 1, a list of quoted strings as
  \<^verbatim>\<open>evidence\<close> and a string as \<^verbatim>\<open>explanation\<close>.
\<close>

fun is_quote :: "pyval \<Rightarrow> bool" where
  "is_quote (PStr s) = True"
| "is_quote _ = False"

definition well_formed_verdict :: "pyval \<Rightarrow> bool" where
  "well_formed_verdict v =
     (case v of
        PDict kvs \<Rightarrow>
          (case map_of kvs ''violation'' of Some (PBool b) \<Rightarrow> True | _ \<Rightarrow> False) \<and>
          (case map_of kvs ''confidence'' of Some (PNum c) \<Rightarrow> 0 \<le> c \<and> c \<le> 1 | _ \<Rightarrow> False) \<and>
          (case map_of kvs ''evidence'' of Some (PList qs) \<Rightarrow> list_all is_quote qs | _ \<Rightarrow> False) \<and>
          (case map_of kvs ''explanation'' of Some (PStr s) \<Rightarrow> True | _ \<Rightarrow> False)
      | _ \<Rightarrow> False)"

text \<open>
  The rule types a call of \<^verbatim>\<open>analyze_document\<close> goes through, and the rules it analyses, in
  order, each with its rule type: those of the requested rule types that are loaded.
\<close>

definition selected_types :: "engine \<Rightarrow> string list option \<Rightarrow> string list" where
  "selected_types eng rule_types =
     (case rule_types of None \<Rightarrow> map fst (rules eng) | Some ts \<Rightarrow> ts)"



text \<open>
  The values that can be compared with a float, numbers and booleans, and the cells of a
  data frame column that can: these and the missing value \<^verbatim>\<open>None\<close>.
\<close>

fun is_number :: "pyval \<Rightarrow> bool" where
  "is_number (PNum x) = True"
| "is_number (PBool b) = True"
| "is_number PNaN = True"
| "is_number PInf = True"
| "is_number PNegInf = True"
| "is_number _ = False"

definition comparable_cell :: "pyval \<Rightarrow> bool" where
  "comparable_cell v = (is_number v \<or> v = PNone)"

text \<open>
  The rule type a file name stands for, and the documents of a listing that are loaded,
  each with its rule type: those of the files named \<^verbatim>\<open>*_rules.json\<close> that hold JSON.
\<close>

definition framework_of :: "string \<Rightarrow> string" where
  "framework_of filename = upper (replace filename ''_rules.json'' [])"

definition json_rule_files :: "(string \<times> rule_file) list \<Rightarrow> (string \<times> rule_set) list" where
  "json_rule_files listing =
     concat (map (\<lambda>(filename, file).
                    if endswith filename ''_rules.json''
                    then (case file of
                            NotJson \<Rightarrow> []
                          | Json content \<Rightarrow> [(framework_of filename, content)])
                    else []) listing)"

section \<open>Properties of the text segmenter\<close>

lemma py_slice_nonneg:
  "0 \<le> c \<Longrightarrow> py_slice xs (int a) (int a + c) = take (nat c) (drop a xs)"
  by (auto simp: py_slice_def Let_def min_def)

lemma chunk_loop_last:
  assumes "start < int (length text)" "int (length text) \<le> start + chunk_size"
  shows "chunk_loop text chunk_size overlap start chunks =
         Some (chunks @ [py_slice text start (start + chunk_size)])"
  using assms by (subst chunk_loop.simps) (simp add: Let_def)

lemma chunk_loop_step:
  assumes "start < int (length text)" "start + chunk_size < int (length text)"
  shows "chunk_loop text chunk_size overlap start chunks =
         chunk_loop text chunk_size overlap (start + chunk_size - overlap)
           (chunks @ [py_slice text start (start + chunk_size)])"
  using assms by (subst chunk_loop.simps) (simp add: Let_def)

text \<open>
  The loop invariant for valid parameters: from a start offset inside the text the loop
  returns, and it appends the windows at \<open>start\<close>, \<open>start + step\<close>, \<open>start + 2 * step\<close>, ...
  up to the first one that reaches the end of the text.
\<close>

lemma chunk_loop_windows:
  assumes "0 \<le> overlap" "overlap < chunk_size" "start < length text"
  shows "\<exists>n. chunk_loop text chunk_size overlap (int start) chunks =
           Some (chunks @ map (\<lambda>k. take (nat chunk_size)
                   (drop (start + k * nat (chunk_size - overlap)) text)) [0..<Suc n])
         \<and> length text \<le> start + n * nat (chunk_size - overlap) + nat chunk_size
         \<and> start + n * nat (chunk_size - overlap) < length text
         \<and> (\<forall>k<n. start + k * nat (chunk_size - overlap) + nat chunk_size < length text)"
  using assms
proof (induction "length text - start" arbitrary: start chunks rule: less_induct)
  case less
  let ?step = "nat (chunk_size - overlap)"
  let ?w = "\<lambda>s k. take (nat chunk_size) (drop (s + k * ?step) text)"
  have cs: "0 \<le> chunk_size" using less.prems by simp
  show ?case
  proof (cases "int (length text) \<le> int start + chunk_size")
    case True
    have "chunk_loop text chunk_size overlap (int start) chunks = Some (chunks @ [?w start 0])"
      using chunk_loop_last[of "int start" "text" chunk_size overlap chunks] True less.prems cs
      by (simp add: py_slice_nonneg)
    moreover have "length text \<le> start + nat chunk_size" using True cs by linarith
    ultimately show ?thesis using less.prems by (intro exI[of _ 0]) simp
  next
    case False
    let ?s = "start + ?step"
    have lt: "int start + chunk_size < int (length text)" using False by simp
    have s': "int start + chunk_size - overlap = int ?s" using less.prems by simp
    have slt: "?s < length text" using lt less.prems by linarith
    have dec: "length text - ?s < length text - start" using less.prems slt by linarith
    from less.hyps[OF dec less.prems(1,2) slt, of "chunks @ [?w start 0]"]
    obtain n where n:
      "chunk_loop text chunk_size overlap (int ?s) (chunks @ [?w start 0]) =
         Some ((chunks @ [?w start 0]) @ map (?w ?s) [0..<Suc n])"
      "length text \<le> ?s + n * ?step + nat chunk_size"
      "?s + n * ?step < length text"
      "\<forall>k<n. ?s + k * ?step + nat chunk_size < length text"
      by blast
    have "chunk_loop text chunk_size overlap (int start) chunks =
          chunk_loop text chunk_size overlap (int ?s) (chunks @ [?w start 0])"
      using chunk_loop_step[of "int start" "text" chunk_size overlap chunks] lt less.prems cs s'
      by (simp add: py_slice_nonneg)
    moreover have "map (?w start) [0..<Suc (Suc n)] = ?w start 0 # map (?w ?s) [0..<Suc n]"
    proof -
      have "[0..<Suc (Suc n)] = 0 # map Suc [0..<Suc n]"
        by (simp only: map_Suc_upt upt_conv_Cons[of 0 "Suc (Suc n)"])
      then show ?thesis by (simp add: comp_def add.assoc del: upt_Suc)
    qed
    moreover have "\<forall>k<Suc n. start + k * ?step + nat chunk_size < length text"
    proof (intro allI impI)
      fix k assume "k < Suc n"
      show "start + k * ?step + nat chunk_size < length text"
      proof (cases k)
        case 0 then show ?thesis using lt cs by simp
      next
        case (Suc j)
        then have "j < n" using \<open>k < Suc n\<close> by simp
        then show ?thesis using n(4) Suc by (simp add: add.assoc add.commute add.left_commute)
      qed
    qed
    ultimately show ?thesis using n(1,2,3)
      by (intro exI[of _ "Suc n"]) (simp add: add.assoc add.commute add.left_commute del: upt_Suc)
  qed
qed

text \<open>
  Without progress the loop has no result: when \<open>chunk_size \<le> overlap\<close> and the text is
  longer than \<open>chunk_size\<close>, the start offset never moves forward and the \<^verbatim>\<open>break\<close> is never
  reached.
\<close>

lemma chunk_loop_no_result:
  assumes "chunk_loop text chunk_size overlap start chunks = Some y"
  shows "\<not> (chunk_size \<le> overlap \<and> chunk_size < int (length text) \<and> start \<le> 0 \<and> text \<noteq> [])"
proof (rule chunk_loop.raw_induct[where P = "\<lambda>t sz olap st chs y.
    \<not> (sz \<le> olap \<and> sz < int (length t) \<and> st \<le> 0 \<and> t \<noteq> [])", OF _ assms])
  fix f t sz olap st chs y
  assume IH: "\<And>t sz olap st chs y. f t sz olap st chs = Some y \<Longrightarrow>
      \<not> (sz \<le> olap \<and> sz < int (length t) \<and> st \<le> 0 \<and> t \<noteq> [])"
    and body: "(if st < int (length t)
      then let stop = st + sz; chunk = py_slice t st stop;
               chunks' = chs @ [chunk]; start' = stop - olap
           in if int (length t) \<le> stop then Some chunks'
              else f t sz olap start' chunks'
      else Some chs) = Some y"
  show "\<not> (sz \<le> olap \<and> sz < int (length t) \<and> st \<le> 0 \<and> t \<noteq> [])"
  proof
    assume a: "sz \<le> olap \<and> sz < int (length t) \<and> st \<le> 0 \<and> t \<noteq> []"
    then have "0 < length t" by simp
    with a have "st < int (length t)" "\<not> int (length t) \<le> st + sz"
      by linarith+
    with body have "f t sz olap (st + sz - olap) (chs @ [py_slice t st (st + sz)]) = Some y"
      by (simp add: Let_def)
    from IH[OF this] a show False by auto
  qed
qed

lemma chunk_text_diverges:
  assumes "text \<noteq> []" "chunk_size \<le> overlap" "chunk_size < int (length text)"
  shows "chunk_text text chunk_size overlap = None"
proof (cases "chunk_text text chunk_size overlap")
  case None then show ?thesis .
next
  case (Some y)
  then show ?thesis using chunk_loop_no_result[of "text" chunk_size overlap 0 "[]" y] assms
    by (simp add: chunk_text_def)
qed

lemma chunk_text_single:
  assumes "text \<noteq> []" "int (length text) \<le> chunk_size"
  shows "chunk_text text chunk_size overlap = Some [text]"
  using assms chunk_loop_last[of 0 "text" chunk_size overlap "[]"]
    py_slice_nonneg[of chunk_size "text" 0]
  by (simp add: chunk_text_def)

lemma chunk_text_Nil: "chunk_text [] chunk_size overlap = Some []"
  by (simp add: chunk_text_def chunk_loop.simps)

text \<open>The parameters \<^verbatim>\<open>add_document_to_vector_db\<close> uses are valid, so indexing returns.\<close>

lemma chunk_text_default_total: "\<exists>chunks. chunk_text content 1000 200 = Some chunks"
proof (cases "content = []")
  case True
  then show ?thesis by (simp add: chunk_text_Nil)
next
  case False
  then have "0 < length content" by simp
  from chunk_loop_windows[of 200 1000 0 content "[]", OF _ _ this]
  show ?thesis by (auto simp: chunk_text_def)
qed

text \<open>
  C10. For the empty text \<^verbatim>\<open>chunk_text\<close> returns the empty list, whatever \<^verbatim>\<open>chunk_size\<close>
  and \<^verbatim>\<open>overlap\<close> are: the loop condition fails at once and no window is produced.
\<close>

theorem chunk_text_empty: "chunk_text [] chunk_size overlap = Some []"
  by (simp add: chunk_text_def chunk_loop.simps)

text \<open>
  C7, as the claim states it, fails: \<^verbatim>\<open>chunk_text\<close> has no check of its parameters and
  raises nothing. With \<^verbatim>\<open>overlap = chunk_size = 5\<close> the text \<^verbatim>\<open>"ab"\<close> is returned as one
  window.
\<close>

theorem chunk_text_accepts_degenerate: "chunk_text ''ab'' 5 5 = Some [''ab'']"
  by (simp add: chunk_text_def chunk_loop.simps py_slice_def)

text \<open>
  C7, amended. \<^verbatim>\<open>chunk_text\<close> accepts \<^verbatim>\<open>overlap >= chunk_size\<close>: for a text no longer than
  \<^verbatim>\<open>chunk_size\<close> it returns normally, with no window for the empty text and with the whole
  text as the single window otherwise.
\<close>

theorem chunk_text_degenerate:
  assumes "chunk_size \<le> overlap" "int (length text) \<le> chunk_size"
  shows "chunk_text text chunk_size overlap = Some (if text = [] then [] else [text])"
  using assms(2) by (simp add: chunk_text_Nil chunk_text_single)

theorem chunk_text_degenerate_witness:
  "(3::int) \<le> 7 \<and> int (length ''abc'') \<le> 3 \<and> chunk_text ''abc'' 3 7 = Some [''abc'']"
  using chunk_text_degenerate[of 3 7 "''abc''"] by simp

text \<open>
  C8. For a non-empty text and \<^verbatim>\<open>chunk_size > overlap >= 0\<close>, \<^verbatim>\<open>chunk_text\<close> returns a
  non-empty list of windows \<open>ws\<close>. With \<open>step = chunk_size - overlap\<close>, which is positive,
  window \<open>k\<close> is \<^verbatim>\<open>text[k*step : k*step + chunk_size]\<close>, so the start offsets \<open>k * step\<close>
  increase strictly by \<open>step\<close>. The last window starts inside the text and reaches its
  end. Every window but the last has \<open>chunk_size\<close> characters, and its last \<open>overlap\<close>
  characters are the first \<open>overlap\<close> characters of the next window.
\<close>

theorem chunk_text_windows:
  assumes "text \<noteq> []" "0 \<le> overlap" "overlap < chunk_size"
  shows "\<exists>ws. chunk_text text chunk_size overlap = Some ws \<and> ws \<noteq> []
    \<and> 0 < nat (chunk_size - overlap)
    \<and> (\<forall>k<length ws. ws ! k =
          take (nat chunk_size) (drop (k * nat (chunk_size - overlap)) text))
    \<and> (length ws - 1) * nat (chunk_size - overlap) < length text
    \<and> length text \<le> (length ws - 1) * nat (chunk_size - overlap) + nat chunk_size
    \<and> (\<forall>k. Suc k < length ws \<longrightarrow>
          length (ws ! k) = nat chunk_size \<and>
          drop (nat (chunk_size - overlap)) (ws ! k) = take (nat overlap) (ws ! Suc k))"
proof -
  let ?step = "nat (chunk_size - overlap)"
  let ?w = "\<lambda>k. take (nat chunk_size) (drop (k * ?step) text)"
  from chunk_loop_windows[OF assms(2,3), of 0 "text" "[]"] assms(1)
  obtain n where n:
    "chunk_text text chunk_size overlap = Some (map ?w [0..<Suc n])"
    "length text \<le> n * ?step + nat chunk_size"
    "n * ?step < length text"
    "\<forall>k<n. k * ?step + nat chunk_size < length text"
    by (auto simp: chunk_text_def)
  let ?ws = "map ?w [0..<Suc n]"
  have len: "length ?ws = Suc n" by simp
  have nth: "?ws ! k = ?w k" if "k < Suc n" for k
    using that by (simp only: nth_map_upt[of k "Suc n" 0 ?w] diff_zero add_0)
  have share: "length (?ws ! k) = nat chunk_size \<and>
      drop ?step (?ws ! k) = take (nat overlap) (?ws ! Suc k)" if "Suc k < Suc n" for k
  proof -
    have k: "k < n" using that by simp
    have full: "k * ?step + nat chunk_size < length text" using n(4) k by simp
    have eq: "nat chunk_size - ?step = nat overlap" using assms by linarith
    have "drop ?step (?w k) = take (nat overlap) (drop (Suc k * ?step) text)"
      by (simp add: drop_take eq add.commute)
    moreover have "take (nat overlap) (?w (Suc k)) = take (nat overlap) (drop (Suc k * ?step) text)"
      using assms by (simp add: min_def)
    moreover have "length (?w k) = nat chunk_size" using full by simp
    ultimately show ?thesis using nth[of k] nth[of "Suc k"] k by simp
  qed
  show ?thesis
    apply (rule exI[of _ ?ws])
    apply (intro conjI)
          apply (rule n(1))
         apply simp
    using assms apply simp
       apply (simp only: len) using nth apply blast
      apply (simp only: len) using n(3) apply simp
     apply (simp only: len) using n(2) apply simp
    apply (simp only: len) using share apply blast
    done
qed

theorem chunk_text_windows_witness:
  "''abcdefghij'' \<noteq> [] \<and> (0::int) \<le> 1 \<and> (1::int) < 4 \<and>
   (\<exists>ws. chunk_text ''abcdefghij'' 4 1 = Some ws \<and> ws \<noteq> [] \<and>
     ws ! 0 = ''abcd'' \<and> drop 3 (ws ! 0) = take 1 (ws ! 1))"
proof -
  have ev: "chunk_text ''abcdefghij'' 4 1 = Some [''abcd'', ''defg'', ''ghij'']"
    by (simp add: chunk_text_def chunk_loop.simps py_slice_def)
  from chunk_text_windows[of "''abcdefghij''" 1 4] ev show ?thesis by simp
qed

section \<open>Properties of the pattern matcher\<close>

lemma prefix_take_conv:
  "prefix xs ys \<longleftrightarrow> length xs \<le> length ys \<and> take (length xs) ys = xs"
  by (metis append_eq_conv_conj prefix_def prefix_length_le take_is_prefix)

lemma occurs_at_prefix:
  "occurs_at lc pattern content i \<longleftrightarrow>
     i \<le> length content \<and> prefix (map lc pattern) (drop i (map lc content))"
  by (auto simp: occurs_at_def prefix_take_conv take_map drop_map)

lemma sublist_drop_prefix: "sublist xs ys \<longleftrightarrow> (\<exists>i\<le>length ys. prefix xs (drop i ys))"
proof
  assume "sublist xs ys"
  then obtain ps ss where "ys = ps @ xs @ ss" by (auto simp: sublist_def)
  then have "length ps \<le> length ys \<and> prefix xs (drop (length ps) ys)" by simp
  then show "\<exists>i\<le>length ys. prefix xs (drop i ys)" by blast
next
  assume "\<exists>i\<le>length ys. prefix xs (drop i ys)"
  then obtain i zs where "drop i ys = xs @ zs" by (auto simp: prefix_def)
  then have "ys = take i ys @ xs @ zs" by (metis append_take_drop_id)
  then show "sublist xs ys" unfolding sublist_def by blast
qed

lemma py_in_lowered: "py_in (lower pattern) (lower content) = lowered_substring lower pattern content"
  by (simp add: py_in_def lowered_substring_def)

text \<open>With a lowercasing of single characters, the test is the case-insensitive one.\<close>

lemma lowered_ci_substring:
  "lowered_substring (map lc) pattern content = ci_substring lc pattern content"
  by (auto simp: lowered_substring_def ci_substring_def sublist_drop_prefix occurs_at_prefix)

lemma find_from_least:
  assumes "\<exists>i\<le>length s. prefix sub (drop i s)"
  shows "find_from sub s k = int (k + (LEAST i. i \<le> length s \<and> prefix sub (drop i s)))"
  using assms
proof (induction s arbitrary: k)
  case Nil
  then show ?case by simp
next
  case (Cons c cs)
  let ?P = "\<lambda>i. i \<le> length (c # cs) \<and> prefix sub (drop i (c # cs))"
  show ?case
  proof (cases "prefix sub (c # cs)")
    case True
    then have "?P 0" by simp
    then have "(LEAST i. ?P i) = 0" by (rule Least_eq_0)
    with True show ?thesis by simp
  next
    case False
    from Cons.prems obtain i where i: "?P i" by blast
    with False have "i \<noteq> 0" by (cases i) auto
    have n0: "\<not> ?P 0" using False by simp
    have "(LEAST i. ?P i) = Suc (LEAST m. ?P (Suc m))"
      by (rule Least_Suc[OF i n0])
    moreover have "\<exists>j\<le>length cs. prefix sub (drop j cs)"
      using i \<open>i \<noteq> 0\<close> by (cases i) auto
    ultimately show ?thesis using False Cons.IH[of "Suc k"] by simp
  qed
qed

lemma py_find_first_occurrence:
  assumes "ci_substring lc pattern content"
  shows "py_find (map lc content) (map lc pattern) = int (first_occurrence lc pattern content)"
proof -
  have eq: "(\<lambda>i. i \<le> length content \<and> prefix (map lc pattern) (drop i (map lc content)))
      = occurs_at lc pattern content"
    by (auto simp: occurs_at_prefix fun_eq_iff)
  from assms have "\<exists>i\<le>length (map lc content). prefix (map lc pattern) (drop i (map lc content))"
    by (auto simp: ci_substring_def occurs_at_prefix)
  from find_from_least[OF this, of 0] show ?thesis
    by (simp add: py_find_def first_occurrence_def eq)
qed

lemma first_occurrence_le:
  assumes "ci_substring lc pattern content"
  shows "first_occurrence lc pattern content + length pattern \<le> length content"
proof -
  from assms obtain i where "occurs_at lc pattern content i" by (auto simp: ci_substring_def)
  then have "occurs_at lc pattern content (first_occurrence lc pattern content)"
    unfolding first_occurrence_def by (rule LeastI)
  then show ?thesis by (simp add: occurs_at_def)
qed

lemma py_slice_nat:
  "a \<le> length xs \<Longrightarrow> b \<le> length xs \<Longrightarrow> py_slice xs (int a) (int b) = take (b - a) (drop a xs)"
  by (simp add: py_slice_def Let_def min_def nat_diff_distrib')

lemma context_slice:
  assumes "ci_substring lc pattern content"
  shows "py_slice content (max 0 (py_find (map lc content) (map lc pattern) - 100))
           (min (int (length content))
              (py_find (map lc content) (map lc pattern) + int (length pattern) + 100))
         = context_of lc content pattern"
proof -
  let ?i = "first_occurrence lc pattern content"
  have le: "?i + length pattern \<le> length content" by (rule first_occurrence_le[OF assms])
  have a: "max 0 (int ?i - 100) = int (?i - 100)" by linarith
  have b: "min (int (length content)) (int ?i + int (length pattern) + 100)
      = int (min (length content) (?i + length pattern + 100))" by linarith
  have "?i - 100 \<le> length content" using le by linarith
  then show ?thesis
    by (simp only: py_find_first_occurrence[OF assms] a b context_of_def Let_def)
       (simp add: py_slice_nat)
qed

text \<open>The loop, for any lowercasing: one message per pattern that passes the test.\<close>

lemma pattern_loop_messages:
  "\<exists>ms. pattern_loop lower content patterns violations = violations @ ms \<and>
     list_all2 (\<lambda>p m. \<exists>context. m = found_message p context)
       (filter (\<lambda>p. lowered_substring lower p content) patterns) ms"
proof (induction patterns arbitrary: violations)
  case Nil
  then show ?case by simp
next
  case (Cons p ps)
  show ?case
  proof (cases "lowered_substring lower p content")
    case True
    let ?m = "found_message p (py_slice content
        (max 0 (py_find (lower content) (lower p) - 100))
        (min (int (length content)) (py_find (lower content) (lower p) + int (length p) + 100)))"
    from Cons.IH[of "violations @ [?m]"] obtain ms where
      ms: "pattern_loop lower content ps (violations @ [?m]) = (violations @ [?m]) @ ms"
        "list_all2 (\<lambda>p m. \<exists>context. m = found_message p context)
           (filter (\<lambda>p. lowered_substring lower p content) ps) ms"
      by blast
    have "pattern_loop lower content (p # ps) violations = violations @ (?m # ms)"
      using True ms(1) by (simp add: py_in_lowered Let_def)
    moreover have "list_all2 (\<lambda>p m. \<exists>context. m = found_message p context)
           (filter (\<lambda>p. lowered_substring lower p content) (p # ps)) (?m # ms)"
      using True ms(2) by auto
    ultimately show ?thesis by blast
  next
    case False
    then show ?thesis using Cons.IH[of violations] by (simp add: py_in_lowered)
  qed
qed

text \<open>
  The loop, for a lowercasing of single characters: the message of a pattern holds the
  context of its first occurrence.
\<close>

lemma pattern_loop_spec:
  "pattern_loop (map lc) content patterns violations =
     violations @ map (\<lambda>p. found_message p (context_of lc content p))
                    (filter (\<lambda>p. ci_substring lc p content) patterns)"
proof (induction patterns arbitrary: violations)
  case Nil
  then show ?case by simp
next
  case (Cons p ps)
  show ?case
  proof (cases "ci_substring lc p content")
    case True
    then show ?thesis
      using Cons.IH[of "violations @ [found_message p (context_of lc content p)]"]
        context_slice[OF True]
      by (simp add: py_in_lowered lowered_ci_substring Let_def)
  next
    case False
    then show ?thesis using Cons.IH[of violations]
      by (simp add: py_in_lowered lowered_ci_substring)
  qed
qed

text \<open>The loop applies \<open>lower\<close> to the content and to the patterns, and to nothing else.\<close>

lemma pattern_loop_cong:
  assumes "lower content = lower' content" and "\<forall>p\<in>set patterns. lower p = lower' p"
  shows "pattern_loop lower content patterns violations =
         pattern_loop lower' content patterns violations"
  using assms(2)
proof (induction patterns arbitrary: violations)
  case Nil
  then show ?case by simp
next
  case (Cons p ps)
  then have "lower p = lower' p" "\<forall>p\<in>set ps. lower p = lower' p" by simp_all
  with Cons.IH assms(1) show ?case by simp
qed

lemma check_pattern_compliance_cong:
  assumes "lower content = lower' content"
      and "\<forall>p\<in>set (rule_patterns rule). lower p = lower' p"
  shows "check_pattern_compliance lower content rule =
         check_pattern_compliance lower' content rule"
  using pattern_loop_cong[where lower = lower and lower' = lower' and content = content
      and patterns = "rule_patterns rule" and violations = "[]"] assms
  by (simp add: check_pattern_compliance_def rule_patterns_def Let_def)

lemma check_pattern_compliance_hit:
  "fst (check_pattern_compliance lower content rule) =
     (\<exists>p\<in>set (rule_patterns rule). lowered_substring lower p content)"
proof -
  from pattern_loop_messages[of lower content "rule_patterns rule" "[]"] obtain ms where
    ms: "pattern_loop lower content (rule_patterns rule) [] = ms"
      "list_all2 (\<lambda>p m. \<exists>context. m = found_message p context)
         (filter (\<lambda>p. lowered_substring lower p content) (rule_patterns rule)) ms"
    by auto
  from ms(2) have "length ms = length (filter (\<lambda>p. lowered_substring lower p content)
      (rule_patterns rule))"
    by (simp add: list_all2_lengthD)
  then have "(0 < length ms) = (\<exists>p\<in>set (rule_patterns rule). lowered_substring lower p content)"
    by (auto simp: filter_empty_conv)
  with ms(1) show ?thesis
    by (simp add: check_pattern_compliance_def rule_patterns_def Let_def)
qed

text \<open>
  C3, as the claim states it, fails. Python lowercases a capital sigma at the end of a word
  to the final sigma: \<^verbatim>\<open>lower\<close> of the one-letter pattern U+03A3 is U+03C3, and \<^verbatim>\<open>lower\<close> of
  the text U+0391 U+03A3 is U+03B1 U+03C2. The pattern is a substring of the text as it
  stands, and the matcher reports no hit.
\<close>

theorem check_pattern_compliance_final_sigma:
  "sublist [931 :: nat] [913, 931] \<and>
   check_pattern_compliance
     (\<lambda>s. if s = [931] then [963] else if s = [913, 931] then [945, 962] else s)
     [913, 931]
     \<lparr>r_id = Some ''R1'', r_name = Some ''Sigma'', r_description = Some ''No sigma'',
      r_severity = Some ''LOW'', r_patterns = Some [[931]], r_llm_prompt = None\<rparr>
   = (False, [])"
  by code_simp

text \<open>
  C3, amended. \<^verbatim>\<open>check_pattern_compliance\<close> reports a hit exactly when, for one of the rule's
  patterns, the lowercased pattern is a substring of the lowercased text. Its evidence holds
  one message per such pattern, in pattern order, each naming its pattern. A rule without
  patterns, or with an empty list of them, gives no hit and no evidence. Where \<^verbatim>\<open>lower\<close>
  maps the text and the patterns character by character (by some \<open>lc\<close>), as it does on
  ASCII text, the hit is exactly the case-insensitive substring test, and the message of a
  pattern holds the context of its first occurrence only: up to 100 characters to each
  side, cut at the bounds of the text.
\<close>

theorem check_pattern_compliance_spec:
  "fst (check_pattern_compliance lower content rule) =
     (\<exists>p\<in>set (rule_patterns rule). lowered_substring lower p content)
   \<and> list_all2 (\<lambda>p m. \<exists>context. m = found_message p context)
       (filter (\<lambda>p. lowered_substring lower p content) (rule_patterns rule))
       (snd (check_pattern_compliance lower content rule))
   \<and> check_pattern_compliance lower content (rule\<lparr>r_patterns := None\<rparr>) = (False, [])
   \<and> check_pattern_compliance lower content (rule\<lparr>r_patterns := Some []\<rparr>) = (False, [])
   \<and> (lower content = map lc content \<and> (\<forall>p\<in>set (rule_patterns rule). lower p = map lc p) \<longrightarrow>
        fst (check_pattern_compliance lower content rule) =
          (\<exists>p\<in>set (rule_patterns rule). ci_substring lc p content)
      \<and> snd (check_pattern_compliance lower content rule) =
          map (\<lambda>p. found_message p (context_of lc content p))
            (filter (\<lambda>p. ci_substring lc p content) (rule_patterns rule)))"
proof -
  have msgs: "list_all2 (\<lambda>p m. \<exists>context. m = found_message p context)
       (filter (\<lambda>p. lowered_substring lower p content) (rule_patterns rule))
       (snd (check_pattern_compliance lower content rule))"
    using pattern_loop_messages[of lower content "rule_patterns rule" "[]"]
    by (auto simp: check_pattern_compliance_def rule_patterns_def Let_def)
  have none: "check_pattern_compliance lower content (rule\<lparr>r_patterns := None\<rparr>) = (False, [])"
    "check_pattern_compliance lower content (rule\<lparr>r_patterns := Some []\<rparr>) = (False, [])"
    by (simp_all add: check_pattern_compliance_def)
  have ci: "fst (check_pattern_compliance (map lc) content rule) =
       (\<exists>p\<in>set (rule_patterns rule). ci_substring lc p content)"
    by (simp add: check_pattern_compliance_hit lowered_ci_substring)
  have ev: "snd (check_pattern_compliance (map lc) content rule) =
       map (\<lambda>p. found_message p (context_of lc content p))
         (filter (\<lambda>p. ci_substring lc p content) (rule_patterns rule))"
    by (simp add: check_pattern_compliance_def rule_patterns_def pattern_loop_spec Let_def)
  have "fst (check_pattern_compliance lower content rule) =
          (\<exists>p\<in>set (rule_patterns rule). ci_substring lc p content)
      \<and> snd (check_pattern_compliance lower content rule) =
          map (\<lambda>p. found_message p (context_of lc content p))
            (filter (\<lambda>p. ci_substring lc p content) (rule_patterns rule))"
    if "lower content = map lc content" "\<forall>p\<in>set (rule_patterns rule). lower p = map lc p"
    using check_pattern_compliance_cong[where lower = lower and lower' = "map lc"
        and content = content and rule = rule] that ci ev by simp
  with check_pattern_compliance_hit[of lower content rule] msgs none
  show ?thesis by blast
qed

text \<open>
  The document of the end-to-end scenario, with the lowercasing of ASCII letters: the
  pattern \<^verbatim>\<open>ssn\<close> occurs at offset 13 of it, in upper case.
\<close>

theorem check_pattern_compliance_witness:
  "ci_substring (\<lambda>c. if 65 \<le> c \<and> c \<le> 90 then c + 32 else c)
     (ustr ''ssn'') (ustr ''We store the SSN in plaintext.'') \<and>
   fst (check_pattern_compliance (map (\<lambda>c. if 65 \<le> c \<and> c \<le> 90 then c + 32 else c))
     (ustr ''We store the SSN in plaintext.'')
     \<lparr>r_id = Some ''R1'', r_name = Some ''SSN exposure'',
      r_description = Some ''No SSN in plaintext'', r_severity = Some ''HIGH'',
      r_patterns = Some [ustr ''ssn''], r_llm_prompt = None\<rparr>)"
proof -
  let ?lc = "\<lambda>c::nat. if 65 \<le> c \<and> c \<le> 90 then c + 32 else c"
  have "occurs_at ?lc (ustr ''ssn'') (ustr ''We store the SSN in plaintext.'') 13"
    by code_simp
  then have ci: "ci_substring ?lc (ustr ''ssn'') (ustr ''We store the SSN in plaintext.'')"
    unfolding ci_substring_def by blast
  let ?rule = "\<lparr>r_id = Some ''R1'', r_name = Some ''SSN exposure'',
      r_description = Some ''No SSN in plaintext'', r_severity = Some ''HIGH'',
      r_patterns = Some [ustr ''ssn''], r_llm_prompt = None\<rparr>"
  from check_pattern_compliance_spec[of "map ?lc" "ustr ''We store the SSN in plaintext.''"
      ?rule ?lc]
  have "map ?lc (ustr ''We store the SSN in plaintext.'') =
          map ?lc (ustr ''We store the SSN in plaintext.'') \<and>
        (\<forall>p\<in>set (rule_patterns ?rule). map ?lc p = map ?lc p) \<longrightarrow>
        fst (check_pattern_compliance (map ?lc) (ustr ''We store the SSN in plaintext.'') ?rule) =
       (\<exists>p\<in>set (rule_patterns ?rule). ci_substring ?lc p (ustr ''We store the SSN in plaintext.''))"
    by blast
  then have "fst (check_pattern_compliance (map ?lc) (ustr ''We store the SSN in plaintext.'') ?rule) =
       (\<exists>p\<in>set (rule_patterns ?rule). ci_substring ?lc p (ustr ''We store the SSN in plaintext.''))"
    by simp
  with ci show ?thesis by (simp add: rule_patterns_def)
qed

section \<open>Properties of the LLM adjudicator\<close>

lemma bind_err_simps [simp]:
  "bind_err (Inl e) f = Inl e"
  "bind_err (Inr x) f = f x"
  by (simp_all add: bind_err_def)

lemma bind_err_Inr_iff:
  "bind_err m f = Inr y \<longleftrightarrow> (\<exists>x. m = Inr x \<and> f x = Inr y)"
  by (cases m) simp_all

lemma rule_prompt_Inr:
  assumes "r_name rule \<noteq> None" "r_description rule \<noteq> None"
  shows "\<exists>prompt. rule_prompt rule content = Inr prompt"
  using assms by (auto simp: rule_prompt_def)

lemma llm_compliance_check_backend:
  assumes "rule_prompt rule content = Inr prompt"
  shows "llm_compliance_check eng content rule =
     (case the_backend eng of
        None \<Rightarrow> Inr no_llm_verdict
      | Some create \<Rightarrow> handle_completion (create prompt))"
  using assms by (simp add: llm_compliance_check_def the_backend_def split: option.splits)

text \<open>
  C2, as the claim states it, fails in three ways. A rule without a name makes the call
  raise \<^verbatim>\<open>KeyError\<close>, since the prompt is built outside the \<^verbatim>\<open>try\<close> block. An answer that is
  JSON but not a verdict, here the text \<^verbatim>\<open>42\<close>, is returned as decoded, and the number 42 is
  not a well-formed verdict. And \<^verbatim>\<open>except Exception\<close> does not catch a \<^verbatim>\<open>KeyboardInterrupt\<close>
  raised while the backend is called, so that one reaches the caller.
\<close>

theorem llm_compliance_check_not_total:
  "llm_compliance_check
     \<lparr>openai_client = None, anthropic_client = None, collection = [], rules = []\<rparr>
     (ustr ''We store the SSN in plaintext.'')
     \<lparr>r_id = Some ''R1'', r_name = None, r_description = Some ''No SSN in plaintext'',
      r_severity = None, r_patterns = Some [ustr ''ssn''], r_llm_prompt = None\<rparr>
   = Inl (KeyError ''name'')
   \<and> llm_compliance_check
     \<lparr>openai_client = Some (\<lambda>prompt. Text ''42'' (Some (PNum 42))), anthropic_client = None,
      collection = [], rules = []\<rparr>
     (ustr ''We store the SSN in plaintext.'')
     \<lparr>r_id = Some ''R1'', r_name = Some ''SSN exposure'',
      r_description = Some ''No SSN in plaintext'', r_severity = None,
      r_patterns = Some [ustr ''ssn''], r_llm_prompt = None\<rparr>
   = Inr (PNum 42)
   \<and> \<not> well_formed_verdict (PNum 42)
   \<and> llm_compliance_check
     \<lparr>openai_client = Some (\<lambda>prompt. RaisesBase ''KeyboardInterrupt''), anthropic_client = None,
      collection = [], rules = []\<rparr>
     (ustr ''We store the SSN in plaintext.'')
     \<lparr>r_id = Some ''R1'', r_name = Some ''SSN exposure'',
      r_description = Some ''No SSN in plaintext'', r_severity = None,
      r_patterns = Some [ustr ''ssn''], r_llm_prompt = None\<rparr>
   = Inl (BaseException ''KeyboardInterrupt'')"
  by (simp add: llm_compliance_check_def rule_prompt_def well_formed_verdict_def)

text \<open>
  C2, amended. For a rule that has a name and a description, \<^verbatim>\<open>llm_compliance_check\<close>
  returns a dictionary and raises nothing in each of these cases: no client is set, and the
  verdict \<^verbatim>\<open>No LLM API configured\<close> is returned; the call of the backend raises an exception
  derived from \<^verbatim>\<open>Exception\<close>, and the verdict with violation false, confidence 0.0, no
  evidence and the explanation \<^verbatim>\<open>LLM analysis failed: \<close> followed by the cause is returned;
  the answer is not JSON, and the fail-open verdict is returned; the answer decodes to a JSON
  object, and that dictionary is returned. The three verdicts the function builds itself are
  well-formed. An exception of the backend that is not derived from \<^verbatim>\<open>Exception\<close> is not
  caught. Nothing is said of an answer that decodes to something other than an object.
\<close>

theorem llm_compliance_check_total:
  assumes "r_name rule \<noteq> None" "r_description rule \<noteq> None"
  shows "\<exists>prompt. rule_prompt rule content = Inr prompt \<and>
     (case the_backend eng of
        None \<Rightarrow>
          llm_compliance_check eng content rule =
            Inr (PDict [(''violation'', PBool False), (''confidence'', PNum 0),
                        (''evidence'', PList []),
                        (''explanation'', PStr ''No LLM API configured'')])
      | Some create \<Rightarrow>
         (case create prompt of
            Raises cause \<Rightarrow>
              llm_compliance_check eng content rule =
                Inr (PDict [(''violation'', PBool False), (''confidence'', PNum 0),
                            (''evidence'', PList []),
                            (''explanation'', PStr (''LLM analysis failed: '' @ cause))])
          | RaisesBase name \<Rightarrow>
              llm_compliance_check eng content rule = Inl (BaseException name)
          | Text result None \<Rightarrow>
              llm_compliance_check eng content rule =
                Inr (PDict [(''violation'', PBool True), (''confidence'', PNum (1 / 2)),
                            (''evidence'', PList []), (''explanation'', PStr result)])
          | Text result (Some (PDict kvs)) \<Rightarrow>
              llm_compliance_check eng content rule = Inr (PDict kvs)
          | Text result (Some other) \<Rightarrow> True))
     \<and> well_formed_verdict no_llm_verdict
     \<and> (\<forall>cause. well_formed_verdict (failed_verdict cause))
     \<and> (\<forall>result. well_formed_verdict (fail_open_verdict result))"
proof -
  from rule_prompt_Inr[OF assms] obtain prompt where p: "rule_prompt rule content = Inr prompt"
    by blast
  have wf: "well_formed_verdict no_llm_verdict"
    "\<forall>cause. well_formed_verdict (failed_verdict cause)"
    "\<forall>result. well_formed_verdict (fail_open_verdict result)"
    by (simp_all add: well_formed_verdict_def no_llm_verdict_def failed_verdict_def
        fail_open_verdict_def)
  have "case the_backend eng of
        None \<Rightarrow>
          llm_compliance_check eng content rule =
            Inr (PDict [(''violation'', PBool False), (''confidence'', PNum 0),
                        (''evidence'', PList []),
                        (''explanation'', PStr ''No LLM API configured'')])
      | Some create \<Rightarrow>
         (case create prompt of
            Raises cause \<Rightarrow>
              llm_compliance_check eng content rule =
                Inr (PDict [(''violation'', PBool False), (''confidence'', PNum 0),
                            (''evidence'', PList []),
                            (''explanation'', PStr (''LLM analysis failed: '' @ cause))])
          | RaisesBase name \<Rightarrow>
              llm_compliance_check eng content rule = Inl (BaseException name)
          | Text result None \<Rightarrow>
              llm_compliance_check eng content rule =
                Inr (PDict [(''violation'', PBool True), (''confidence'', PNum (1 / 2)),
                            (''evidence'', PList []), (''explanation'', PStr result)])
          | Text result (Some (PDict kvs)) \<Rightarrow>
              llm_compliance_check eng content rule = Inr (PDict kvs)
          | Text result (Some other) \<Rightarrow> True)"
    by (simp add: llm_compliance_check_backend[OF p] no_llm_verdict_def failed_verdict_def
        fail_open_verdict_def split: option.splits completion.splits pyval.splits)
  with p wf show ?thesis by blast
qed

theorem llm_compliance_check_total_witness:
  "r_name \<lparr>r_id = Some ''R1'', r_name = Some ''SSN exposure'',
     r_description = Some ''No SSN in plaintext'', r_severity = Some ''HIGH'',
     r_patterns = Some [ustr ''ssn''], r_llm_prompt = None\<rparr> \<noteq> None \<and>
   llm_compliance_check
     \<lparr>openai_client = Some (\<lambda>prompt. Raises ''Connection error.''), anthropic_client = None,
      collection = [], rules = []\<rparr>
     (ustr ''We store the SSN in plaintext.'')
     \<lparr>r_id = Some ''R1'', r_name = Some ''SSN exposure'',
      r_description = Some ''No SSN in plaintext'', r_severity = Some ''HIGH'',
      r_patterns = Some [ustr ''ssn''], r_llm_prompt = None\<rparr>
   = Inr (PDict [(''violation'', PBool False), (''confidence'', PNum 0), (''evidence'', PList []),
          (''explanation'', PStr ''LLM analysis failed: Connection error.'')])"
  using llm_compliance_check_total[of
     "\<lparr>r_id = Some ''R1'', r_name = Some ''SSN exposure'',
      r_description = Some ''No SSN in plaintext'', r_severity = Some ''HIGH'',
      r_patterns = Some [ustr ''ssn''], r_llm_prompt = None\<rparr>"
     "ustr ''We store the SSN in plaintext.''"
     "\<lparr>openai_client = Some (\<lambda>prompt. Raises ''Connection error.''), anthropic_client = None,
      collection = [], rules = []\<rparr>"]
  by (auto simp: the_backend_def)

text \<open>
  C5, as the claim states it, fails. The answer \<^verbatim>\<open>[]\<close> cannot be read as a verdict, but it is
  JSON: \<^verbatim>\<open>json.loads\<close> decodes it to the empty list, and the empty list is what is returned,
  not the fail-open verdict.
\<close>

theorem llm_compliance_check_json_not_verdict:
  "llm_compliance_check
     \<lparr>openai_client = Some (\<lambda>prompt. Text ''[]'' (Some (PList []))), anthropic_client = None,
      collection = [], rules = []\<rparr>
     (ustr ''We store the SSN in plaintext.'')
     \<lparr>r_id = Some ''R1'', r_name = Some ''SSN exposure'',
      r_description = Some ''No SSN in plaintext'', r_severity = None,
      r_patterns = Some [ustr ''ssn''], r_llm_prompt = None\<rparr>
   = Inr (PList [])
   \<and> PList [] \<noteq> fail_open_verdict ''[]''"
  by (simp add: llm_compliance_check_def rule_prompt_def fail_open_verdict_def)

text \<open>
  C5, amended. When the backend that is called returns a text that is not JSON, that is,
  \<^verbatim>\<open>json.loads\<close> raises \<^verbatim>\<open>JSONDecodeError\<close> on it, \<^verbatim>\<open>llm_compliance_check\<close> returns the fail-open
  verdict: violation true, confidence 0.5, no evidence, and the raw text as explanation.
  Nothing is raised and the text is not dropped. The backend is called with the prompt, so
  the prompt has been built.
\<close>

theorem llm_compliance_check_fail_open:
  assumes "rule_prompt rule content = Inr prompt"
      and "the_backend eng = Some create"
      and "create prompt = Text result None"
  shows "llm_compliance_check eng content rule =
     Inr (PDict [(''violation'', PBool True), (''confidence'', PNum (1 / 2)),
                 (''evidence'', PList []), (''explanation'', PStr result)])"
  using assms by (simp add: llm_compliance_check_backend fail_open_verdict_def)

theorem llm_compliance_check_fail_open_witness:
  "rule_prompt
     \<lparr>r_id = Some ''R1'', r_name = Some ''SSN exposure'',
      r_description = Some ''No SSN in plaintext'', r_severity = Some ''HIGH'',
      r_patterns = Some [ustr ''ssn''], r_llm_prompt = None\<rparr> (ustr ''We store the SSN.'')
   = Inr (build_prompt ''SSN exposure'' ''No SSN in plaintext''
            ''Analyze this document for compliance violations.'' (ustr ''We store the SSN.''))
   \<and> the_backend
        \<lparr>openai_client = None,
         anthropic_client = Some (\<lambda>prompt. Text ''I think this is a violation.'' None),
         collection = [], rules = []\<rparr>
       = Some (\<lambda>prompt. Text ''I think this is a violation.'' None)
   \<and> llm_compliance_check
        \<lparr>openai_client = None,
         anthropic_client = Some (\<lambda>prompt. Text ''I think this is a violation.'' None),
         collection = [], rules = []\<rparr>
        (ustr ''We store the SSN.'')
        \<lparr>r_id = Some ''R1'', r_name = Some ''SSN exposure'',
         r_description = Some ''No SSN in plaintext'', r_severity = Some ''HIGH'',
         r_patterns = Some [ustr ''ssn''], r_llm_prompt = None\<rparr>
     = Inr (PDict [(''violation'', PBool True), (''confidence'', PNum (1 / 2)),
                   (''evidence'', PList []),
                   (''explanation'', PStr ''I think this is a violation.'')])"
proof -
  let ?rule = "\<lparr>r_id = Some ''R1'', r_name = Some ''SSN exposure'',
      r_description = Some ''No SSN in plaintext'', r_severity = Some ''HIGH'',
      r_patterns = Some [ustr ''ssn''], r_llm_prompt = None\<rparr>"
  let ?eng = "\<lparr>openai_client = None,
         anthropic_client = Some (\<lambda>prompt. Text ''I think this is a violation.'' None),
         collection = [], rules = []\<rparr>"
  let ?prompt = "build_prompt ''SSN exposure'' ''No SSN in plaintext''
            ''Analyze this document for compliance violations.'' (ustr ''We store the SSN.'')"
  have p: "rule_prompt ?rule (ustr ''We store the SSN.'') = Inr ?prompt"
    by (simp add: rule_prompt_def ustr_def)
  have b: "the_backend ?eng = Some (\<lambda>prompt. Text ''I think this is a violation.'' None)"
    by (simp add: the_backend_def)
  from llm_compliance_check_fail_open[OF p b, of "''I think this is a violation.''"] p b
  show ?thesis by simp
qed

section \<open>Properties of the analysis orchestrator\<close>

lemma add_document_total:
  "\<exists>eng'. add_document_to_vector_db eng doc_id content metadata = Some eng' \<and>
     rules eng' = rules eng \<and> openai_client eng' = openai_client eng \<and>
     anthropic_client eng' = anthropic_client eng"
  using chunk_text_default_total[of content]
  by (auto simp: add_document_to_vector_db_def)

lemma analyze_document_types:
  "\<exists>eng'. analyze_document lower eng doc_id content rule_types =
       Some (analyze_types lower eng' doc_id content (selected_types eng rule_types) [], eng') \<and>
     rules eng' = rules eng \<and> openai_client eng' = openai_client eng \<and>
     anthropic_client eng' = anthropic_client eng"
  using add_document_total[of eng doc_id content "[(''doc_id'', doc_id)]"]
  by (auto simp: analyze_document_def selected_types_def Let_def split: option.splits)

lemma py_max_floor:
  assumes "py_max (4 / 5) c = Inr s"
  shows "py_ge s (4 / 5) = Inr True"
  using assms by (cases c) (auto simp: py_max_def split: if_splits)

lemma py_max_number:
  assumes "py_max a c = Inr s"
  shows "is_number s"
  using assms by (cases c) (auto simp: py_max_def split: if_splits)

lemma analyze_rule_fields:
  assumes "analyze_rule lower eng doc_id content rtype rule = Inr v"
  shows "overall_violation v = py_or (pattern_violation v) (llm_violation v)"
    and "py_max (if pattern_violation v then 4 / 5 else 0) (llm_confidence v)
           = Inr (confidence_score v)"
    and "pattern_violation v = fst (check_pattern_compliance lower content rule)"
    and "rule_type v = rtype"
  using assms
  by (auto simp: analyze_rule_def bind_err_Inr_iff split: prod.splits)

lemma truthy_py_or: "truthy (py_or a v) = (a \<or> truthy v)"
  by (simp add: py_or_def)

lemma analyze_rule_invariant:
  assumes "analyze_rule lower eng doc_id content rtype rule = Inr v"
  shows "overall_violation v = py_or (pattern_violation v) (llm_violation v) \<and>
      truthy (overall_violation v) = (pattern_violation v \<or> truthy (llm_violation v)) \<and>
      py_max (if pattern_violation v then 4 / 5 else 0) (llm_confidence v)
        = Inr (confidence_score v) \<and>
      (pattern_violation v \<longrightarrow> py_ge (confidence_score v) (4 / 5) = Inr True) \<and>
      is_number (confidence_score v)"
  using analyze_rule_fields(1,2)[OF assms] py_max_floor[of "llm_confidence v" "confidence_score v"]
    py_max_number[of _ "llm_confidence v" "confidence_score v"]
  by (auto simp: truthy_py_or)

lemma analyze_rules_all:
  assumes "analyze_rules lower eng doc_id content rtype rs acc = Inr res"
      and "\<forall>v\<in>set acc. P v"
      and "\<And>rule v. analyze_rule lower eng doc_id content rtype rule = Inr v \<Longrightarrow> P v"
  shows "\<forall>v\<in>set res. P v"
  using assms(1,2)
proof (induction rs arbitrary: acc)
  case Nil
  then show ?case by simp
next
  case (Cons r rs)
  from Cons.prems(1) obtain v where v: "analyze_rule lower eng doc_id content rtype r = Inr v"
    and rest: "analyze_rules lower eng doc_id content rtype rs (acc @ [v]) = Inr res"
    by (auto simp: bind_err_Inr_iff)
  have "\<forall>x\<in>set (acc @ [v]). P x" using Cons.prems(2) assms(3)[OF v] by simp
  from Cons.IH[OF rest this] show ?case .
qed

lemma analyze_types_all:
  assumes "analyze_types lower eng doc_id content rtypes acc = Inr res"
      and "\<forall>v\<in>set acc. P v"
      and "\<And>rtype rule v. analyze_rule lower eng doc_id content rtype rule = Inr v \<Longrightarrow> P v"
  shows "\<forall>v\<in>set res. P v"
  using assms(1,2)
proof (induction rtypes arbitrary: acc)
  case Nil
  then show ?case by simp
next
  case (Cons t ts)
  show ?case
  proof (cases "map_of (rules eng) t")
    case None
    with Cons.prems(1) have "analyze_types lower eng doc_id content ts acc = Inr res" by simp
    from Cons.IH[OF this Cons.prems(2)] show ?thesis .
  next
    case (Some rset)
    with Cons.prems(1) obtain mid where
      mid: "analyze_rules lower eng doc_id content t
              (case rs_rules rset of None \<Rightarrow> [] | Some rs \<Rightarrow> rs) acc = Inr mid"
      and rest: "analyze_types lower eng doc_id content ts mid = Inr res"
      by (auto simp: bind_err_Inr_iff)
    have "\<forall>v\<in>set mid. P v"
      by (rule analyze_rules_all[OF mid Cons.prems(2)]) (rule assms(3))
    from Cons.IH[OF rest this] show ?thesis .
  qed
qed

lemma analyze_document_all:
  assumes "analyze_document lower eng doc_id content rule_types = Some (Inr results, eng')"
      and "\<And>e rtype rule v. analyze_rule lower e doc_id content rtype rule = Inr v \<Longrightarrow> P v"
  shows "\<forall>v\<in>set results. P v"
proof -
  from assms(1) obtain rtypes where
    "analyze_types lower eng' doc_id content rtypes [] = Inr results"
    by (auto simp: analyze_document_def Let_def split: option.splits)
  from analyze_types_all[OF this, of P] assms(2) show ?thesis by simp
qed

text \<open>
  C1. Every record of a list that \<^verbatim>\<open>analyze_document\<close> returns satisfies the two
  invariants, whatever the document, the rules and the answers of the backend are.
  \<^verbatim>\<open>overall_violation\<close> is the value of \<^verbatim>\<open>pattern_violation or llm_violation\<close>, so it is true
  exactly when one of the two is. \<^verbatim>\<open>confidence_score\<close> is the value of
  \<^verbatim>\<open>max(0.8 if pattern_violation else 0.0, llm_confidence)\<close>, and after a pattern hit it is
  at least 0.8.
\<close>

theorem analyze_document_invariants:
  assumes "analyze_document lower eng doc_id content rule_types = Some (Inr results, eng')"
      and "v \<in> set results"
  shows "overall_violation v = py_or (pattern_violation v) (llm_violation v) \<and>
      truthy (overall_violation v) = (pattern_violation v \<or> truthy (llm_violation v)) \<and>
      py_max (if pattern_violation v then 4 / 5 else 0) (llm_confidence v)
        = Inr (confidence_score v) \<and>
      (pattern_violation v \<longrightarrow> py_ge (confidence_score v) (4 / 5) = Inr True)"
proof -
  have "\<forall>v\<in>set results.
      overall_violation v = py_or (pattern_violation v) (llm_violation v) \<and>
      truthy (overall_violation v) = (pattern_violation v \<or> truthy (llm_violation v)) \<and>
      py_max (if pattern_violation v then 4 / 5 else 0) (llm_confidence v)
        = Inr (confidence_score v) \<and>
      (pattern_violation v \<longrightarrow> py_ge (confidence_score v) (4 / 5) = Inr True) \<and>
      is_number (confidence_score v)"
    by (rule analyze_document_all[OF assms(1)]) (rule analyze_rule_invariant)
  with assms(2) show ?thesis by blast
qed

theorem analyze_document_invariants_witness:
  \<open>\<exists>v eng'.
     analyze_document (map (\<lambda>c. if 65 \<le> c \<and> c \<le> 90 then c + 32 else c))
       \<lparr>openai_client = Some (\<lambda>prompt. Text ''{"violation": false, "confidence": 0.3}''
            (Some (PDict [(''violation'', PBool False), (''confidence'', PNum (3 / 10))]))),
        anthropic_client = None, collection = [],
        rules = [(''GDPR'', \<lparr>rs_description = Some ''GDPR'',
           rs_rules = Some [\<lparr>r_id = Some ''R1'', r_name = Some ''SSN exposure'',
             r_description = Some ''No SSN in plaintext'', r_severity = Some ''HIGH'',
             r_patterns = Some [ustr ''ssn''], r_llm_prompt = None\<rparr>]\<rparr>)]\<rparr>
       ''7'' (ustr ''We store the SSN in plaintext.'') None = Some (Inr [v], eng') \<and>
     v \<in> set [v] \<and> pattern_violation v \<and> llm_violation v = PBool False \<and>
     overall_violation v = PBool True \<and> py_ge (confidence_score v) (4 / 5) = Inr True\<close>
proof -
  let ?lower = "map (\<lambda>c::nat. if 65 \<le> c \<and> c \<le> 90 then c + 32 else c)"
  let ?rule = "\<lparr>r_id = Some ''R1'', r_name = Some ''SSN exposure'',
             r_description = Some ''No SSN in plaintext'', r_severity = Some ''HIGH'',
             r_patterns = Some [ustr ''ssn''], r_llm_prompt = None\<rparr>"
  let ?eng = \<open>\<lparr>openai_client = Some (\<lambda>prompt. Text ''{"violation": false, "confidence": 0.3}''
            (Some (PDict [(''violation'', PBool False), (''confidence'', PNum (3 / 10))]))),
        anthropic_client = None, collection = [],
        rules = [(''GDPR'', \<lparr>rs_description = Some ''GDPR'', rs_rules = Some [?rule]\<rparr>)]\<rparr>\<close>
  let ?content = "ustr ''We store the SSN in plaintext.''"
  have hit: "fst (check_pattern_compliance ?lower ?content ?rule)" by code_simp
  obtain eng' where
    doc: "analyze_document ?lower ?eng ''7'' ?content None =
       Some (analyze_types ?lower eng' ''7'' ?content (selected_types ?eng None) [], eng')"
    and same: "rules eng' = rules ?eng" "openai_client eng' = openai_client ?eng"
      "anthropic_client eng' = anthropic_client ?eng"
    using analyze_document_types[of ?lower ?eng "''7''" ?content None] by blast
  have "\<exists>v. analyze_rule ?lower eng' ''7'' ?content ''GDPR'' ?rule = Inr v \<and>
          pattern_violation v \<and> llm_violation v = PBool False"
    using hit same
    by (auto simp: analyze_rule_def llm_compliance_check_def rule_prompt_def py_max_def
        split: prod.splits)
  then obtain v where v: "analyze_rule ?lower eng' ''7'' ?content ''GDPR'' ?rule = Inr v"
    "pattern_violation v" "llm_violation v = PBool False" by blast
  have res: "analyze_document ?lower ?eng ''7'' ?content None = Some (Inr [v], eng')"
    using doc v(1) same by (simp add: selected_types_def)
  from analyze_document_invariants[OF res, of v] v(2,3)
  have "overall_violation v = PBool True" "py_ge (confidence_score v) (4 / 5) = Inr True"
    by (simp_all add: py_or_def)
  with res v show ?thesis by auto
qed








section \<open>Properties of the report aggregator\<close>

text \<open>
  Rounding to a double moves a non-negative value by at most half a unit in the last place;
  the bound below is a coarser one that holds for every non-negative value.
\<close>

lemma round_half_even_error: "\<bar>of_int (round_half_even m) - m\<bar> \<le> 1 / 2"
proof -
  have "of_int \<lfloor>m\<rfloor> \<le> m" "m < of_int \<lfloor>m\<rfloor> + 1" by linarith+
  then show ?thesis by (auto simp: round_half_even_def Let_def)
qed

lemma round_half_even_nonneg: "0 \<le> m \<Longrightarrow> 0 \<le> round_half_even m"
  by (auto simp: round_half_even_def Let_def)

lemma exponent_le:
  assumes "0 < x"
  shows "2 powi (exponent x) \<le> x"
proof -
  obtain a b where ab: "quotient_of x = (a, b)" by (cases "quotient_of x")
  then have b: "0 < b" and x: "x = of_int a / of_int b"
    using quotient_of_denom_pos[OF ab] quotient_of_div[OF ab] by auto
  with assms have a: "0 < a" by (simp add: zero_less_divide_iff)
  let ?k = "bitlen a - bitlen b"
  have la: "2 ^ nat (bitlen a - 1) \<le> a" using bitlen_bounds[OF a] by simp
  have lb: "b < 2 ^ nat (bitlen b)" using bitlen_bounds[OF b] by simp
  have ba: "1 \<le> bitlen a" "1 \<le> bitlen b"
    using a b bitlen_nonneg[of a] bitlen_nonneg[of b] bitlen_eq_zero_iff[of a] bitlen_eq_zero_iff[of b]
    by linarith+
  have "(2::rat) powi (?k - 1) = 2 powi (bitlen a - 1) / 2 powi (bitlen b)"
    by (simp add: power_int_diff)
  also have "\<dots> = 2 ^ nat (bitlen a - 1) / 2 ^ nat (bitlen b)"
    using ba by (simp add: power_int_def)
  also have "\<dots> \<le> of_int a / 2 ^ nat (bitlen b)"
  proof -
    have "(2::rat) ^ nat (bitlen a - 1) \<le> of_int a"
      using la by (metis of_int_le_iff of_int_numeral of_int_power)
    then show ?thesis by (simp add: divide_right_mono)
  qed
  also have "\<dots> \<le> of_int a / of_int b"
  proof -
    have "(of_int b :: rat) \<le> 2 ^ nat (bitlen b)"
      using lb by (metis less_imp_le of_int_le_iff of_int_numeral of_int_power)
    then show ?thesis using a b by (simp add: frac_le)
  qed
  finally have low: "2 powi (?k - 1) \<le> x" using x by simp
  show ?thesis using low ab by (simp add: exponent_def Let_def)
qed

lemma round_double_error:
  assumes "0 \<le> x"
  shows "\<bar>round_double x - x\<bar> \<le> (x + 1) / 2 ^ 53" and "0 \<le> round_double x"
proof -
  show "\<bar>round_double x - x\<bar> \<le> (x + 1) / 2 ^ 53"
  proof (cases "x = 0")
    case True
    then show ?thesis by (simp add: round_double_def)
  next
    case False
    with assms have pos: "0 < x" by simp
    let ?e = "max (exponent x) (- 1022)"
    let ?u = "(2::rat) powi (?e - 52)"
    have u: "0 < ?u" by simp
    have rd: "round_double x = of_int (round_half_even (x / ?u)) * ?u"
      using pos by (simp add: round_double_def Let_def)
    have "\<bar>round_double x - x\<bar> = \<bar>of_int (round_half_even (x / ?u)) - x / ?u\<bar> * ?u"
    proof -
      have "round_double x - x = (of_int (round_half_even (x / ?u)) - x / ?u) * ?u"
        using u by (simp add: rd field_simps)
      then show ?thesis using u by (simp add: abs_mult)
    qed
    also have "\<dots> \<le> 1 / 2 * ?u"
      using round_half_even_error[of "x / ?u"] u by (simp add: mult_right_mono)
    also have "1 / 2 * ?u = 2 powi (?e - 53)"
      by (simp add: power_int_diff)
    also have "\<dots> \<le> (x + 1) / 2 ^ 53"
    proof (cases "- 1022 \<le> exponent x")
      case True
      then have "?e = exponent x" by simp
      then have "(2::rat) powi (?e - 53) = 2 powi (exponent x) / 2 ^ 53"
        by (simp add: power_int_diff)
      also have "\<dots> \<le> x / 2 ^ 53" using exponent_le[OF pos] by (simp add: divide_right_mono)
      also have "\<dots> \<le> (x + 1) / 2 ^ 53" by (simp add: divide_right_mono)
      finally show ?thesis .
    next
      case False
      then have "?e = - 1022" by simp
      then have "(2::rat) powi (?e - 53) = 2 powi (- 1075)" by simp
      also have "\<dots> \<le> 2 powi (- 53)" by (rule power_int_increasing) simp_all
      also have "\<dots> = 1 / 2 ^ 53" by (simp add: power_int_def field_simps)
      also have "\<dots> \<le> (x + 1) / 2 ^ 53" using pos by (simp add: divide_right_mono)
      finally show ?thesis .
    qed
    finally show ?thesis .
  qed
  show "0 \<le> round_double x"
    using assms round_half_even_nonneg[of "x / 2 powi (max (exponent x) (- 1022) - 52)"]
    by (auto simp: round_double_def Let_def sgn_if)
qed

lemma score_error:
  assumes "0 \<le> q" "q \<le> 1"
  shows "\<bar>round_double (round_double q * 100) - 100 * q\<bar> \<le> 1 / 2 ^ 44"
proof -
  let ?r = "round_double q"
  have r: "\<bar>?r - q\<bar> \<le> (q + 1) / 2 ^ 53" "0 \<le> ?r" using round_double_error[OF assms(1)] by auto
  have r2: "\<bar>?r - q\<bar> \<le> 2 / 2 ^ 53"
  proof -
    have "(q + 1) / 2 ^ 53 \<le> 2 / 2 ^ 53" using assms(2) by (simp add: divide_right_mono)
    with r(1) show ?thesis by linarith
  qed
  then have rle: "?r \<le> 1 + 2 / 2 ^ 53" using assms(2) by linarith
  let ?y = "?r * 100"
  have y0: "0 \<le> ?y" using r(2) by simp
  have yle: "?y \<le> 101" using rle by simp
  have "\<bar>round_double ?y - ?y\<bar> \<le> (?y + 1) / 2 ^ 53" using round_double_error(1)[OF y0] .
  also have "\<dots> \<le> 102 / 2 ^ 53" using yle by (simp add: divide_right_mono)
  finally have e2: "\<bar>round_double ?y - ?y\<bar> \<le> 102 / 2 ^ 53" .
  have "\<bar>?y - 100 * q\<bar> = 100 * \<bar>?r - q\<bar>" by (simp add: abs_if)
  with r2 have e1: "\<bar>?y - 100 * q\<bar> \<le> 200 / 2 ^ 53" by simp
  have "\<bar>round_double ?y - 100 * q\<bar> \<le> 302 / 2 ^ 53" using e1 e2 by linarith
  also have "\<dots> \<le> 1 / 2 ^ 44" by simp
  finally show ?thesis .
qed

lemma round_double_values: "round_double 1 = 1" "round_double 100 = 100" "round_double 0 = 0"
  by code_simp+

lemma compliance_score_exact:
  "float_mul (int_truediv (int n) (int n)) 100 = (if n = 0 then 0 else 100)"
  "float_mul (int_truediv 0 (int n)) 100 = 0"
  by (simp_all add: float_mul_def int_truediv_def round_double_values)

lemma high_confidence_mask_comparable:
  assumes "\<forall>v\<in>set df. comparable_cell (confidence_score v)"
  shows "\<exists>mask. high_confidence_mask df = Inr mask"
  using assms
proof (induction df)
  case Nil
  then show ?case by simp
next
  case (Cons row df)
  then obtain mask where "high_confidence_mask df = Inr mask" by auto
  moreover from Cons.prems obtain b where "column_gt (confidence_score row) (7 / 10) = Inr b"
    by (cases "confidence_score row") (auto simp: comparable_cell_def)
  ultimately show ?case by simp
qed

text \<open>
  C4, as the claim states it, fails. For three records of which one is a violation the
  score is \<^verbatim>\<open>(3 - 1) / 3 * 100\<close> in double precision, 66.66666666666666: the quotient is
  rounded before it is multiplied. That is neither the number \<open>100 * (3 - 1) / 3\<close> nor the
  double nearest to it, 66.66666666666667.
\<close>

theorem compliance_score_rounded:
  "map_option (\<lambda>s. (total_checks s, total_violations s, compliance_score s))
     (case generate_compliance_report
        [\<lparr>document_id = ''7'', rule_type = ''GDPR'', rule_id = ''R1'', rule_name = ''SSN exposure'',
          violation_type = ''No SSN in plaintext'', severity = ''HIGH'',
          pattern_violation = True, pattern_evidence = [],
          llm_violation = PBool False, llm_confidence = PNum 0, llm_evidence = PList [],
          llm_explanation = PStr ''No LLM API configured'',
          overall_violation = PBool True, confidence_score = PNum (4 / 5)\<rparr>,
         \<lparr>document_id = ''7'', rule_type = ''GDPR'', rule_id = ''R2'', rule_name = ''Consent'',
          violation_type = ''Consent must be recorded'', severity = ''MEDIUM'',
          pattern_violation = False, pattern_evidence = [],
          llm_violation = PBool False, llm_confidence = PNum 0, llm_evidence = PList [],
          llm_explanation = PStr ''No LLM API configured'',
          overall_violation = PBool False, confidence_score = PNum 0\<rparr>,
         \<lparr>document_id = ''7'', rule_type = ''GDPR'', rule_id = ''R3'', rule_name = ''Retention'',
          violation_type = ''Retention period must be stated'', severity = ''LOW'',
          pattern_violation = False, pattern_evidence = [],
          llm_violation = PBool False, llm_confidence = PNum 0, llm_evidence = PList [],
          llm_explanation = PStr ''No LLM API configured'',
          overall_violation = PBool False, confidence_score = PNum 0\<rparr>] of
        Inl e \<Rightarrow> None
      | Inr rep \<Rightarrow> report_summary rep)
   = Some (3, 1, 2345624805922133 / 35184372088832)
   \<and> (2345624805922133 / 35184372088832 :: rat) \<noteq> 100 * (3 - 1) / 3
   \<and> (2345624805922133 / 35184372088832 :: rat) \<noteq> round_double (100 * (3 - 1) / 3)"
  by code_simp

text \<open>
  C4, amended. \<^verbatim>\<open>generate_compliance_report\<close> on the empty list returns the status
  \<^verbatim>\<open>No violations found\<close> with the empty summary and nothing else. On a non-empty list of
  \<open>N\<close> records whose confidence scores are numbers or missing, \<open>V\<close> of them with
  \<^verbatim>\<open>overall_violation == True\<close>, the summary has \<^verbatim>\<open>total_checks\<close> \<open>N\<close>, \<^verbatim>\<open>total_violations\<close>
  \<open>V\<close>, and as \<^verbatim>\<open>compliance_score\<close> the double \<^verbatim>\<open>(N - V) / N * 100\<close>: the quotient rounded,
  then the product rounded. The score is within \<open>1 / 2 ^ 44\<close> of \<open>100 * (N - V) / N\<close>; it
  is exactly 100 when \<open>V\<close> is 0 and exactly 0 when \<open>V\<close> is \<open>N\<close>.
\<close>

theorem generate_compliance_report_summary:
  assumes "\<forall>v\<in>set results. comparable_cell (confidence_score v)"
  shows "generate_compliance_report [] =
           Inr \<lparr>status = ''No violations found'', report_summary = None,
                detailed_results = None\<rparr>
    \<and> (results = [] \<or>
        (\<exists>rep s. generate_compliance_report results = Inr rep \<and>
           report_summary rep = Some s \<and>
           total_checks s = length results \<and>
           total_violations s =
             card {i. i < length results \<and> py_eq_True (overall_violation (results ! i))} \<and>
           compliance_score s =
             round_double
               (round_double (rat_of_nat (total_checks s - total_violations s)
                                / rat_of_nat (total_checks s)) * 100) \<and>
           \<bar>compliance_score s -
              100 * rat_of_nat (total_checks s - total_violations s) / rat_of_nat (total_checks s)\<bar>
             \<le> 1 / 2 ^ 44 \<and>
           (total_violations s = 0 \<longrightarrow> compliance_score s = 100) \<and>
           (total_violations s = total_checks s \<longrightarrow> compliance_score s = 0)))"
proof -
  have empty: "generate_compliance_report [] =
           Inr \<lparr>status = ''No violations found'', report_summary = None,
                detailed_results = None\<rparr>"
    by (simp add: generate_compliance_report_def)
  let ?N = "length results" and ?V = "length (violation_rows results)"
  have count: "?V = card {i. i < ?N \<and> py_eq_True (overall_violation (results ! i))}"
    by (simp add: violation_rows_def length_filter_conv_card)
  have le: "?V \<le> ?N" by (simp add: violation_rows_def)
  from high_confidence_mask_comparable[OF assms] obtain mask where
    mask: "high_confidence_mask results = Inr mask" by blast
  have "results \<noteq> [] \<Longrightarrow> ?thesis"
  proof -
    assume ne: "results \<noteq> []"
    then have N: "0 < ?N" by simp
    let ?q = "rat_of_nat (?N - ?V) / rat_of_nat ?N"
    let ?score = "round_double (round_double ?q * 100)"
    let ?s = "\<lparr>total_violations = ?V,
               total_checks = ?N,
               violations_by_type = group_sizes rule_type (violation_rows results),
               violations_by_severity = group_sizes severity (violation_rows results),
               high_confidence_violations =
                 length (filter (\<lambda>(row, b). py_eq_True (overall_violation row) \<and> b)
                           (zip results mask)),
               compliance_score = ?score\<rparr>"
    have sc: "float_mul (int_truediv (int ?N - int ?V) (int ?N)) 100 = ?score"
      using le by (simp add: float_mul_def int_truediv_def of_nat_diff)
    have rep: "generate_compliance_report results =
        Inr \<lparr>status = ''Analysis Complete'', report_summary = Some ?s,
             detailed_results = Some results\<rparr>"
      using ne mask sc by (simp add: generate_compliance_report_def Let_def)
    have q: "0 \<le> ?q" "?q \<le> 1" using N le by (simp_all add: divide_le_eq)
    have err: "\<bar>?score - 100 * rat_of_nat (?N - ?V) / rat_of_nat ?N\<bar> \<le> 1 / 2 ^ 44"
      using score_error[OF q] by simp
    have zero: "?V = 0 \<longrightarrow> ?score = 100"
      using N by (auto simp: round_double_values)
    have all: "?V = ?N \<longrightarrow> ?score = 0"
      by (auto simp: round_double_values)
    show ?thesis
      apply (rule conjI[OF empty])
      apply (rule disjI2)
      apply (rule exI[of _ "\<lparr>status = ''Analysis Complete'', report_summary = Some ?s,
             detailed_results = Some results\<rparr>"])
      apply (rule exI[of _ ?s])
      using rep err zero all count apply simp
      done
  qed
  then show ?thesis using empty by blast
qed

theorem generate_compliance_report_summary_witness:
  "comparable_cell (PNum (4 / 5)) \<and>
   (\<exists>rep s. generate_compliance_report
      [\<lparr>document_id = ''7'', rule_type = ''GDPR'', rule_id = ''R1'', rule_name = ''SSN exposure'',
        violation_type = ''No SSN in plaintext'', severity = ''HIGH'',
        pattern_violation = True, pattern_evidence = [],
        llm_violation = PBool False, llm_confidence = PNum 0, llm_evidence = PList [],
        llm_explanation = PStr ''No LLM API configured'',
        overall_violation = PBool True, confidence_score = PNum (4 / 5)\<rparr>,
       \<lparr>document_id = ''7'', rule_type = ''GDPR'', rule_id = ''R2'', rule_name = ''Consent'',
        violation_type = ''Consent must be recorded'', severity = ''MEDIUM'',
        pattern_violation = False, pattern_evidence = [],
        llm_violation = PBool False, llm_confidence = PNum 0, llm_evidence = PList [],
        llm_explanation = PStr ''No LLM API configured'',
        overall_violation = PBool False, confidence_score = PNum 0\<rparr>] = Inr rep \<and>
      report_summary rep = Some s \<and> total_checks s = 2 \<and> total_violations s = 1 \<and>
      compliance_score s = 50)"
proof -
  let ?v1 = "\<lparr>document_id = ''7'', rule_type = ''GDPR'', rule_id = ''R1'', rule_name = ''SSN exposure'',
        violation_type = ''No SSN in plaintext'', severity = ''HIGH'',
        pattern_violation = True, pattern_evidence = [],
        llm_violation = PBool False, llm_confidence = PNum 0, llm_evidence = PList [],
        llm_explanation = PStr ''No LLM API configured'',
        overall_violation = PBool True, confidence_score = PNum (4 / 5)\<rparr>"
  let ?v2 = "\<lparr>document_id = ''7'', rule_type = ''GDPR'', rule_id = ''R2'', rule_name = ''Consent'',
        violation_type = ''Consent must be recorded'', severity = ''MEDIUM'',
        pattern_violation = False, pattern_evidence = [],
        llm_violation = PBool False, llm_confidence = PNum 0, llm_evidence = PList [],
        llm_explanation = PStr ''No LLM API configured'',
        overall_violation = PBool False, confidence_score = PNum 0\<rparr>"
  have c: "{i. i < length [?v1, ?v2] \<and> py_eq_True (overall_violation ([?v1, ?v2] ! i))} = {0}"
    by (auto simp: py_eq_True_def less_Suc_eq nth_Cons')
  have h: "\<forall>v\<in>set [?v1, ?v2]. comparable_cell (confidence_score v)"
    by (simp add: comparable_cell_def)
  have half: "round_double (round_double (1 / 2) * 100) = 50" by code_simp
  have "[?v1, ?v2] = [] \<or>
        (\<exists>rep s. generate_compliance_report [?v1, ?v2] = Inr rep \<and>
           report_summary rep = Some s \<and>
           total_checks s = length [?v1, ?v2] \<and>
           total_violations s =
             card {i. i < length [?v1, ?v2] \<and> py_eq_True (overall_violation ([?v1, ?v2] ! i))} \<and>
           compliance_score s =
             round_double
               (round_double (rat_of_nat (total_checks s - total_violations s)
                                / rat_of_nat (total_checks s)) * 100))"
    using conjunct2[OF generate_compliance_report_summary[OF h]] by blast
  then obtain rep s where r: "generate_compliance_report [?v1, ?v2] = Inr rep"
      "report_summary rep = Some s" "total_checks s = length [?v1, ?v2]"
      "total_violations s =
         card {i. i < length [?v1, ?v2] \<and> py_eq_True (overall_violation ([?v1, ?v2] ! i))}"
      "compliance_score s =
             round_double
               (round_double (rat_of_nat (total_checks s - total_violations s)
                                / rat_of_nat (total_checks s)) * 100)"
    by blast
  have n: "total_checks s = 2" using r(3) by simp
  have v: "total_violations s = 1" using r(4) by (simp only: c) simp
  have sc: "compliance_score s = 50" using r(5) half by (simp add: n v)
  from r(1,2) n v sc show ?thesis by (auto simp: comparable_cell_def)
qed

section \<open>Properties of rule loading\<close>

lemma map_of_update_fold:
  "load_rules_loop listing loaded = Inr res \<Longrightarrow>
     map_of res = map_of loaded ++ map_of (rev (json_rule_files listing))"
proof (induction listing arbitrary: loaded)
  case Nil
  then show ?case by (simp add: json_rule_files_def)
next
  case (Cons entry rest)
  obtain filename fl where e: "entry = (filename, fl)" by (cases entry)
  show ?case
  proof (cases "endswith filename ''_rules.json''")
    case False
    with Cons e show ?thesis by (simp add: json_rule_files_def)
  next
    case True
    show ?thesis
    proof (cases fl)
      case NotJson
      with Cons.prems e True show ?thesis by simp
    next
      case (Json content)
      with Cons.prems e True have
        "load_rules_loop rest (AList.update (framework_of filename) content loaded) = Inr res"
        by (simp add: framework_of_def)
      from Cons.IH[OF this] show ?thesis using e True Json
        by (auto simp: json_rule_files_def update_conv' fun_eq_iff map_add_def
            split: option.splits)
    qed
  qed
qed

lemma load_rules_loop_succeeds:
  assumes "\<forall>(filename, file)\<in>set listing. endswith filename ''_rules.json'' \<longrightarrow> file \<noteq> NotJson"
  shows "\<exists>res. load_rules_loop listing loaded = Inr res"
  using assms
proof (induction listing arbitrary: loaded)
  case Nil
  then show ?case by simp
next
  case (Cons entry rest)
  obtain filename fl where e: "entry = (filename, fl)" by (cases entry)
  with Cons show ?case by (cases fl) (auto simp: Let_def)
qed

lemma load_rules_loop_fails:
  assumes "(filename, NotJson) \<in> set listing" "endswith filename ''_rules.json''"
  shows "load_rules_loop listing loaded = Inl JSONDecodeError"
  using assms
proof (induction listing arbitrary: loaded)
  case Nil
  then show ?case by simp
next
  case (Cons entry rest)
  obtain fn fl where e: "entry = (fn, fl)" by (cases entry)
  with Cons show ?case by (cases fl) (auto simp: Let_def)
qed

text \<open>
  C6, as the claim states it, fails: \<^verbatim>\<open>load_all_rules\<close> checks no rule entry. A rule file
  whose only rule has no \<^verbatim>\<open>id\<close> is loaded without an error, next to a second file.
\<close>

theorem load_all_rules_no_rule_load_error:
  "load_all_rules
     [(''gdpr_rules.json'',
       Json \<lparr>rs_description = Some ''GDPR'',
             rs_rules = Some [\<lparr>r_id = None, r_name = Some ''Consent'',
                               r_description = Some ''Consent must be recorded'',
                               r_severity = Some ''HIGH'', r_patterns = Some [ustr ''consent''],
                               r_llm_prompt = None\<rparr>]\<rparr>),
      (''sox_rules.json'', Json \<lparr>rs_description = Some ''SOX'', rs_rules = Some []\<rparr>)]
   = Inr [(''GDPR'',
           \<lparr>rs_description = Some ''GDPR'',
             rs_rules = Some [\<lparr>r_id = None, r_name = Some ''Consent'',
                               r_description = Some ''Consent must be recorded'',
                               r_severity = Some ''HIGH'', r_patterns = Some [ustr ''consent''],
                               r_llm_prompt = None\<rparr>]\<rparr>),
          (''SOX'', \<lparr>rs_description = Some ''SOX'', rs_rules = Some []\<rparr>)]"
  by code_simp

text \<open>
  C6, amended. \<^verbatim>\<open>load_all_rules\<close> validates no rule entry and raises no
  \<^verbatim>\<open>RuleLoadError\<close>: when every file named \<^verbatim>\<open>*_rules.json\<close> holds JSON, the load succeeds, and
  the dictionary it returns maps each rule type to the document of the last such file for
  it, unchanged, whether or not its rule entries have an id, a name or a description.
\<close>

theorem load_all_rules_unvalidated:
  assumes "\<forall>(filename, file)\<in>set listing. endswith filename ''_rules.json'' \<longrightarrow> file \<noteq> NotJson"
  shows "\<exists>loaded. load_all_rules listing = Inr loaded \<and>
           map_of loaded = map_of (rev (json_rule_files listing))"
proof -
  from load_rules_loop_succeeds[OF assms, of "[]"] obtain res where
    res: "load_rules_loop listing [] = Inr res" by blast
  from map_of_update_fold[OF res] res show ?thesis by (simp add: load_all_rules_def)
qed

theorem load_all_rules_unvalidated_witness:
  "endswith ''hipaa_rules.json'' ''_rules.json'' \<and> Json \<lparr>rs_description = None, rs_rules = Some [\<lparr>r_id = None, r_name = None,
        r_description = None, r_severity = None, r_patterns = None, r_llm_prompt = None\<rparr>]\<rparr> \<noteq> NotJson \<and>
   (\<exists>loaded. load_all_rules
      [(''hipaa_rules.json'', Json \<lparr>rs_description = None, rs_rules = Some [\<lparr>r_id = None, r_name = None,
        r_description = None, r_severity = None, r_patterns = None, r_llm_prompt = None\<rparr>]\<rparr>)] = Inr loaded \<and>
      map_of loaded ''HIPAA'' = Some \<lparr>rs_description = None, rs_rules = Some [\<lparr>r_id = None, r_name = None,
        r_description = None, r_severity = None, r_patterns = None, r_llm_prompt = None\<rparr>]\<rparr>)"
proof -
  have e: "endswith ''hipaa_rules.json'' ''_rules.json''" by code_simp
  have f: "framework_of ''hipaa_rules.json'' = ''HIPAA''" by code_simp
  from load_all_rules_unvalidated[of
      "[(''hipaa_rules.json'', Json \<lparr>rs_description = None, rs_rules = Some [\<lparr>r_id = None, r_name = None,
        r_description = None, r_severity = None, r_patterns = None, r_llm_prompt = None\<rparr>]\<rparr>)]"] e f
  show ?thesis by (auto simp: json_rule_files_def)
qed

end
